theory Spec2Isabelle
  imports Complex_Main "HOL-Library.Sublist"
begin

section \<open>Data preparation: the SQL of the two dataset notebooks\<close>

text \<open>
  Both data-preparation notebooks build one SQL script

  \<^verbatim>\<open>CREATE OR REPLACE TABLE `<project>.<dataset>.<table>` AS (
     WITH taxitrips AS (SELECT ... FROM `bigquery-public-data.chicago_taxi_trips.taxi_trips`
                        WHERE 1=1 AND pickup_longitude IS NOT NULL ... AND fare > 0
                          AND EXTRACT(YEAR FROM trip_start_timestamp) = @YEAR)
     SELECT ..., IF((tips/fare >= 0.2), 1, 0) AS tip_bin,
            IF(RAND() > 0.8, 'UNASSIGNED', 'TEST') AS data_split
     FROM taxitrips LIMIT @LIMIT)\<close>

  and differ in the last column only: the notebook \<open>01-dataset-management\<close> writes
  \<^verbatim>\<open>IF(RAND() <= 0.8, 'UNASSIGNED', 'TEST') AS ML_use\<close>.

  The script is embedded as a function from the rows of the source table to the rows of
  the destination table. Columns are nullable, so a column value is an \<open>option\<close>
  (\<open>None\<close> is SQL's NULL) and a condition is a \<open>bool option\<close> (three-valued logic).
  Numeric columns are read as real numbers. The draws of \<open>RAND()\<close> are an input: the
  \<open>i\<close>-th row of \<open>taxitrips\<close> sees the draw \<open>rand i\<close>.
\<close>

subsection \<open>SQL values and operators\<close>

datatype sql_error = Division_by_zero | Invalid_limit | Table_not_found string

type_synonym sql_bool = "bool option"

definition sql_gt :: "real option \<Rightarrow> real option \<Rightarrow> sql_bool" where
  "sql_gt a b = (case a of None \<Rightarrow> None | Some x \<Rightarrow>
                  (case b of None \<Rightarrow> None | Some y \<Rightarrow> Some (x > y)))"

definition sql_ge :: "real option \<Rightarrow> real option \<Rightarrow> sql_bool" where
  "sql_ge a b = (case a of None \<Rightarrow> None | Some x \<Rightarrow>
                  (case b of None \<Rightarrow> None | Some y \<Rightarrow> Some (x \<ge> y)))"

definition sql_le :: "real option \<Rightarrow> real option \<Rightarrow> sql_bool" where
  "sql_le a b = (case a of None \<Rightarrow> None | Some x \<Rightarrow>
                  (case b of None \<Rightarrow> None | Some y \<Rightarrow> Some (x \<le> y)))"

definition sql_eq :: "int option \<Rightarrow> int option \<Rightarrow> sql_bool" where
  "sql_eq a b = (case a of None \<Rightarrow> None | Some x \<Rightarrow>
                  (case b of None \<Rightarrow> None | Some y \<Rightarrow> Some (x = y)))"

definition is_not_null :: "'a option \<Rightarrow> sql_bool" where
  "is_not_null a = Some (a \<noteq> None)"

fun sql_and :: "sql_bool \<Rightarrow> sql_bool \<Rightarrow> sql_bool" where
  "sql_and (Some False) _ = Some False"
| "sql_and _ (Some False) = Some False"
| "sql_and (Some True) (Some True) = Some True"
| "sql_and _ _ = None"

definition sql_div :: "real option \<Rightarrow> real option \<Rightarrow> sql_error + real option" where
  \<comment> \<open>\<open>a / b\<close>: NULL when an operand is NULL, an error when the divisor is zero.\<close>
  "sql_div a b = (case a of None \<Rightarrow> Inr None | Some x \<Rightarrow>
                   (case b of None \<Rightarrow> Inr None | Some y \<Rightarrow>
                      if y = 0 then Inl Division_by_zero else Inr (Some (x / y))))"

definition sql_if :: "sql_bool \<Rightarrow> 'a \<Rightarrow> 'a \<Rightarrow> 'a" where
  \<comment> \<open>\<open>IF(c, a, b)\<close>: \<open>a\<close> when \<open>c\<close> is TRUE, \<open>b\<close> when it is FALSE or NULL.\<close>
  "sql_if c a b = (if c = Some True then a else b)"

subsection \<open>Rows\<close>

record timestamp =
  ts_year :: int
  ts_month :: int
  ts_day :: int
  ts_dayofweek :: int
  ts_hour :: int

definition sql_extract :: "(timestamp \<Rightarrow> int) \<Rightarrow> timestamp option \<Rightarrow> int option" where
  "sql_extract part ts = map_option part ts"

record trip =
  trip_start_timestamp :: "timestamp option"
  trip_seconds :: "real option"
  trip_miles :: "real option"
  payment_type :: "string option"
  pickup_longitude :: "real option"
  pickup_latitude :: "real option"
  dropoff_longitude :: "real option"
  dropoff_latitude :: "real option"
  tips :: "real option"
  fare :: "real option"

record prepared =
  prep_start_timestamp :: "timestamp option"
  trip_month :: "int option"
  trip_day :: "int option"
  trip_day_of_week :: "int option"
  trip_hour :: "int option"
  prep_seconds :: "real option"
  prep_miles :: "real option"
  prep_payment_type :: "string option"
  pickup_grid :: "string option"
  dropoff_grid :: "string option"
  euclidean :: "real option"
  loc_cross :: "string option"
  tip_bin :: int
  split_column :: string

text \<open>
  The geography functions belong to the warehouse. They are parameters of the embedding:
  \<open>snap_text lon lat\<close> stands for
  \<^verbatim>\<open>ST_AsText(ST_SnapToGrid(ST_GeogPoint(lon, lat), 0.1))\<close> and \<open>st_distance\<close> for
  \<^verbatim>\<open>ST_Distance(ST_GeogPoint(lon1, lat1), ST_GeogPoint(lon2, lat2))\<close>; both give NULL
  on a NULL coordinate.
\<close>

record geography =
  snap_text :: "real \<Rightarrow> real \<Rightarrow> string"
  st_distance :: "real \<Rightarrow> real \<Rightarrow> real \<Rightarrow> real \<Rightarrow> real"

definition grid :: "geography \<Rightarrow> real option \<Rightarrow> real option \<Rightarrow> string option" where
  "grid g lon lat = (case lon of None \<Rightarrow> None | Some x \<Rightarrow>
                      (case lat of None \<Rightarrow> None | Some y \<Rightarrow> Some (snap_text g x y)))"

definition distance :: "geography \<Rightarrow> trip \<Rightarrow> real option" where
  "distance g t =
     (case (pickup_longitude t, pickup_latitude t, dropoff_longitude t, dropoff_latitude t) of
        (Some a, Some b, Some c, Some d) \<Rightarrow> Some (st_distance g a b c d)
      | _ \<Rightarrow> None)"

definition concat_sql :: "string option \<Rightarrow> string option \<Rightarrow> string option" where
  "concat_sql a b = (case a of None \<Rightarrow> None | Some x \<Rightarrow>
                      (case b of None \<Rightarrow> None | Some y \<Rightarrow> Some (x @ y)))"

subsection \<open>The WHERE filter of \<open>taxitrips\<close>\<close>

definition where_cond :: "int \<Rightarrow> trip \<Rightarrow> sql_bool" where
  "where_cond year t =
     sql_and (sql_and (sql_and (sql_and (sql_and (sql_and (sql_and (sql_and
       (Some ((1::int) = 1))
       (is_not_null (pickup_longitude t)))
       (is_not_null (pickup_latitude t)))
       (is_not_null (dropoff_longitude t)))
       (is_not_null (dropoff_latitude t)))
       (sql_gt (trip_miles t) (Some 0)))
       (sql_gt (trip_seconds t) (Some 0)))
       (sql_gt (fare t) (Some 0)))
       (sql_eq (sql_extract ts_year (trip_start_timestamp t)) (Some year))"

definition taxitrips :: "int \<Rightarrow> trip list \<Rightarrow> trip list" where
  \<comment> \<open>WHERE keeps the rows on which the condition is TRUE.\<close>
  "taxitrips year src = filter (\<lambda>t. where_cond year t = Some True) src"

text \<open>
  What the specification asks of a prepared record, in its words: positive distance,
  duration and fare, and pickup and dropoff coordinates that are not NULL.
\<close>

definition valid_trip :: "trip \<Rightarrow> bool" where
  "valid_trip t \<longleftrightarrow>
     (\<exists>m. trip_miles t = Some m \<and> m > 0) \<and>
     (\<exists>s. trip_seconds t = Some s \<and> s > 0) \<and>
     (\<exists>f. fare t = Some f \<and> f > 0) \<and>
     pickup_longitude t \<noteq> None \<and> pickup_latitude t \<noteq> None \<and>
     dropoff_longitude t \<noteq> None \<and> dropoff_latitude t \<noteq> None"

subsection \<open>The SELECT list\<close>

definition tip_bin_expr :: "trip \<Rightarrow> sql_error + int" where
  \<comment> \<open>\<^verbatim>\<open>IF((tips/fare >= 0.2), 1, 0)\<close>\<close>
  "tip_bin_expr t =
     (case sql_div (tips t) (fare t) of
        Inl e \<Rightarrow> Inl e
      | Inr q \<Rightarrow> Inr (sql_if (sql_ge q (Some (2 / 10))) 1 0))"

definition data_split :: "real \<Rightarrow> string" where
  \<comment> \<open>the unnamed notebook: \<^verbatim>\<open>IF(RAND() > 0.8, 'UNASSIGNED', 'TEST') AS data_split\<close>\<close>
  "data_split r = sql_if (sql_gt (Some r) (Some (8 / 10))) ''UNASSIGNED'' ''TEST''"

definition ML_use :: "real \<Rightarrow> string" where
  \<comment> \<open>\<open>01-dataset-management\<close>: \<^verbatim>\<open>IF(RAND() <= 0.8, 'UNASSIGNED', 'TEST') AS ML_use\<close>\<close>
  "ML_use r = sql_if (sql_le (Some r) (Some (8 / 10))) ''UNASSIGNED'' ''TEST''"

definition select_row :: "geography \<Rightarrow> (real \<Rightarrow> string) \<Rightarrow> trip \<Rightarrow> real \<Rightarrow> sql_error + prepared" where
  "select_row g split t r =
     (case tip_bin_expr t of
        Inl e \<Rightarrow> Inl e
      | Inr b \<Rightarrow> Inr
         \<lparr> prep_start_timestamp = trip_start_timestamp t,
           trip_month = sql_extract ts_month (trip_start_timestamp t),
           trip_day = sql_extract ts_day (trip_start_timestamp t),
           trip_day_of_week = sql_extract ts_dayofweek (trip_start_timestamp t),
           trip_hour = sql_extract ts_hour (trip_start_timestamp t),
           prep_seconds = trip_seconds t,
           prep_miles = trip_miles t,
           prep_payment_type = payment_type t,
           pickup_grid = grid g (pickup_longitude t) (pickup_latitude t),
           dropoff_grid = grid g (dropoff_longitude t) (dropoff_latitude t),
           euclidean = distance g t,
           loc_cross = concat_sql (grid g (pickup_longitude t) (pickup_latitude t))
                                  (grid g (dropoff_longitude t) (dropoff_latitude t)),
           tip_bin = b,
           split_column = split r \<rparr>)"

fun select_rows ::
  "geography \<Rightarrow> (real \<Rightarrow> string) \<Rightarrow> (nat \<Rightarrow> real) \<Rightarrow> nat \<Rightarrow> trip list \<Rightarrow> sql_error + prepared list" where
  "select_rows g split rand i [] = Inr []"
| "select_rows g split rand i (t # ts) =
     (case select_row g split t (rand i) of
        Inl e \<Rightarrow> Inl e
      | Inr p \<Rightarrow> (case select_rows g split rand (Suc i) ts of
                   Inl e \<Rightarrow> Inl e
                 | Inr ps \<Rightarrow> Inr (p # ps)))"

definition limit :: "int \<Rightarrow> 'a list \<Rightarrow> sql_error + 'a list" where
  "limit n rows = (if n < 0 then Inl Invalid_limit else Inr (take (nat n) rows))"

definition prepare_query ::
  "geography \<Rightarrow> (real \<Rightarrow> string) \<Rightarrow> (nat \<Rightarrow> real) \<Rightarrow> int \<Rightarrow> int \<Rightarrow> trip list \<Rightarrow> sql_error + prepared list" where
  \<comment> \<open>the query after \<^verbatim>\<open>AS\<close>: filter, project, limit\<close>
  "prepare_query g split rand year sample_size src =
     (case select_rows g split rand 0 (taxitrips year src) of
        Inl e \<Rightarrow> Inl e
      | Inr ps \<Rightarrow> limit sample_size ps)"

subsection \<open>The statement: CREATE OR REPLACE TABLE\<close>

datatype table = Trips "trip list" | Prepared "prepared list"

type_synonym warehouse = "string \<rightharpoonup> table"

definition source_table :: string where
  "source_table = ''bigquery-public-data.chicago_taxi_trips.taxi_trips''"

definition destination :: "string \<Rightarrow> string \<Rightarrow> string \<Rightarrow> string" where
  "destination project dataset tbl = project @ ''.'' @ dataset @ ''.'' @ tbl"

definition run_sql_script ::
  "geography \<Rightarrow> (real \<Rightarrow> string) \<Rightarrow> (nat \<Rightarrow> real) \<Rightarrow> string \<Rightarrow> int \<Rightarrow> int \<Rightarrow> warehouse
     \<Rightarrow> sql_error + warehouse" where
  "run_sql_script g split rand dest year sample_size w =
     (case w source_table of
        Some (Trips src) \<Rightarrow>
          (case prepare_query g split rand year sample_size src of
             Inl e \<Rightarrow> Inl e
           | Inr ps \<Rightarrow> Inr (w(dest \<mapsto> Prepared ps)))
      | _ \<Rightarrow> Inl (Table_not_found source_table))"

section \<open>Placeholder substitution in the SQL script\<close>

text \<open>
  The script is a Python triple-quoted string: a newline, then the lines below, each ended
  by a newline. The two notebooks differ in the first line (the project placeholder is
  \<^verbatim>\<open>@PROJECT\<close> in one and \<^verbatim>\<open>@PROJECT_ID\<close> in the other) and in the line of
  the split column; the lines between and after are the same text and are written once.
\<close>

definition triple_quoted :: "string list \<Rightarrow> string" where
  "triple_quoted ls = CHR 0x0A # concat (map (\<lambda>l. l @ [CHR 0x0A]) ls)"

definition taxitrips_lines :: "string list" where
  "taxitrips_lines =
    [''AS ('',
     ''    WITH'',
     ''      taxitrips AS ('',
     ''      SELECT'',
     ''        trip_start_timestamp,'',
     ''        trip_seconds,'',
     ''        trip_miles,'',
     ''        payment_type,'',
     ''        pickup_longitude,'',
     ''        pickup_latitude,'',
     ''        dropoff_longitude,'',
     ''        dropoff_latitude,'',
     ''        tips,'',
     ''        fare'',
     ''      FROM'',
     ''        `bigquery-public-data.chicago_taxi_trips.taxi_trips`'',
     ''      WHERE 1=1 '',
     ''      AND pickup_longitude IS NOT NULL'',
     ''      AND pickup_latitude IS NOT NULL'',
     ''      AND dropoff_longitude IS NOT NULL'',
     ''      AND dropoff_latitude IS NOT NULL'',
     ''      AND trip_miles > 0'',
     ''      AND trip_seconds > 0'',
     ''      AND fare > 0'']"

definition year_line :: string where
  "year_line = ''      AND EXTRACT(YEAR FROM trip_start_timestamp) = @YEAR''"

definition select_lines :: "string list" where
  "select_lines =
    [''    )'',
     '''',
     ''    SELECT'',
     ''      trip_start_timestamp,'',
     ''      EXTRACT(MONTH from trip_start_timestamp) as trip_month,'',
     ''      EXTRACT(DAY from trip_start_timestamp) as trip_day,'',
     ''      EXTRACT(DAYOFWEEK from trip_start_timestamp) as trip_day_of_week,'',
     ''      EXTRACT(HOUR from trip_start_timestamp) as trip_hour,'',
     ''      trip_seconds,'',
     ''      trip_miles,'',
     ''      payment_type,'',
     ''      ST_AsText('',
     ''          ST_SnapToGrid(ST_GeogPoint(pickup_longitude, pickup_latitude), 0.1)'',
     ''      ) AS pickup_grid,'',
     ''      ST_AsText('',
     ''          ST_SnapToGrid(ST_GeogPoint(dropoff_longitude, dropoff_latitude), 0.1)'',
     ''      ) AS dropoff_grid,'',
     ''      ST_Distance('',
     ''          ST_GeogPoint(pickup_longitude, pickup_latitude), '',
     ''          ST_GeogPoint(dropoff_longitude, dropoff_latitude)'',
     ''      ) AS euclidean,'',
     ''      CONCAT('',
     ''          ST_AsText(ST_SnapToGrid(ST_GeogPoint(pickup_longitude,'',
     ''              pickup_latitude), 0.1)), '',
     ''          ST_AsText(ST_SnapToGrid(ST_GeogPoint(dropoff_longitude,'',
     ''              dropoff_latitude), 0.1))'',
     ''      ) AS loc_cross,'',
     ''      IF((tips/fare >= 0.2), 1, 0) AS tip_bin,'']"

definition from_lines :: "string list" where
  "from_lines =
    [''    FROM'',
     ''      taxitrips'']"

definition limit_line :: string where
  "limit_line = ''    LIMIT @LIMIT''"

definition sql_script_data_split :: string where
  \<comment> \<open>the unnamed notebook\<close>
  "sql_script_data_split = triple_quoted
     ([''CREATE OR REPLACE TABLE `@PROJECT.@DATASET.@TABLE` '']
      @ taxitrips_lines @ [year_line] @ select_lines @
      [''      IF(RAND() > 0.8, 'UNASSIGNED', 'TEST') AS data_split'']
      @ from_lines @ [limit_line, '')''])"

definition sql_script_ML_use :: string where
  \<comment> \<open>\<open>01-dataset-management\<close>\<close>
  "sql_script_ML_use = triple_quoted
     ([''CREATE OR REPLACE TABLE `@PROJECT_ID.@DATASET.@TABLE` '']
      @ taxitrips_lines @ [year_line] @ select_lines @
      [''      IF(RAND() <= 0.8, 'UNASSIGNED', 'TEST') AS ML_use'']
      @ from_lines @ [limit_line, '')''])"

subsection \<open>Python's \<open>str.replace\<close> and \<open>str\<close>\<close>

function replace_scan :: "string \<Rightarrow> string \<Rightarrow> string \<Rightarrow> string" where
  "replace_scan old new [] = []"
| "replace_scan old new (c # cs) =
     (if old \<noteq> [] \<and> prefix old (c # cs)
      then new @ replace_scan old new (drop (length old) (c # cs))
      else c # replace_scan old new cs)"
  by pat_completeness auto
termination
  by (relation "measure (\<lambda>(old, new, s). length s)") (auto simp: neq_Nil_conv)

definition replace :: "string \<Rightarrow> string \<Rightarrow> string \<Rightarrow> string" where
  \<comment> \<open>\<open>s.replace(old, new)\<close>: every occurrence, left to right, without overlap; an empty
      \<open>old\<close> matches before every character and at the end.\<close>
  "replace old new s =
     (if old = [] then new @ concat (map (\<lambda>c. c # new) s) else replace_scan old new s)"

definition digit_char :: "nat \<Rightarrow> char" where
  "digit_char d = char_of (48 + d)"

function str_nat :: "nat \<Rightarrow> string" where
  "str_nat n = (if n < 10 then [digit_char n] else str_nat (n div 10) @ [digit_char (n mod 10)])"
  by pat_completeness auto
termination
  by (relation "measure id") auto

definition str :: "int \<Rightarrow> string" where
  "str i = (if i < 0 then CHR ''-'' # str_nat (nat (- i)) else str_nat (nat i))"

subsection \<open>The replace chain of the two notebooks\<close>

definition substitute_data_split :: "string \<Rightarrow> string \<Rightarrow> string \<Rightarrow> int \<Rightarrow> int \<Rightarrow> string" where
  "substitute_data_split PROJECT BQ_DATASET_NAME BQ_TABLE_NAME year sample_size =
     replace ''@LIMIT'' (str sample_size)
       (replace ''@YEAR'' (str year)
         (replace ''@TABLE'' BQ_TABLE_NAME
           (replace ''@DATASET'' BQ_DATASET_NAME
             (replace ''@PROJECT'' PROJECT sql_script_data_split))))"

definition substitute_ML_use :: "string \<Rightarrow> string \<Rightarrow> string \<Rightarrow> int \<Rightarrow> int \<Rightarrow> string" where
  "substitute_ML_use PROJECT_ID BQ_DATASET_NAME BQ_TABLE_NAME year sample_size =
     replace ''@LIMIT'' (str sample_size)
       (replace ''@YEAR'' (str year)
         (replace ''@TABLE'' BQ_TABLE_NAME
           (replace ''@DATASET'' BQ_DATASET_NAME
             (replace ''@PROJECT_ID'' PROJECT_ID sql_script_ML_use))))"

subsection \<open>The substitution the specification describes\<close>

text \<open>
  The specification speaks of the template with every occurrence of a placeholder replaced
  by its value and every other character unchanged: one pass over the template, in which
  the inserted values are not looked at again. \<open>spec_substitute\<close> is that pass; it
  follows the specification's words, not the code, and is what the replace chain is
  compared with.
\<close>

function spec_substitute :: "(string \<times> string) list \<Rightarrow> string \<Rightarrow> string" where
  "spec_substitute bs [] = []"
| "spec_substitute bs (c # cs) =
     (case find (\<lambda>(k, v). k \<noteq> [] \<and> prefix k (c # cs)) bs of
        Some (k, v) \<Rightarrow> v @ spec_substitute bs (drop (length k) (c # cs))
      | None \<Rightarrow> c # spec_substitute bs cs)"
  by pat_completeness auto
termination
  by (relation "measure (\<lambda>(bs, s). length s)") (auto simp: neq_Nil_conv find_Some_iff)

definition bindings :: "string \<Rightarrow> string \<Rightarrow> string \<Rightarrow> string \<Rightarrow> int \<Rightarrow> int \<Rightarrow> (string \<times> string) list" where
  "bindings project_placeholder project dataset tbl year sample_size =
     [(project_placeholder, project), (''@DATASET'', dataset), (''@TABLE'', tbl),
      (''@YEAR'', str year), (''@LIMIT'', str sample_size)]"

text \<open>
  A template seen as pieces: literal text and placeholders. \<open>fill\<close> writes a value for
  each placeholder; with the identity it gives the template back.
\<close>

datatype piece = Lit string | Hole string

fun fill :: "(string \<Rightarrow> string) \<Rightarrow> piece list \<Rightarrow> string" where
  "fill \<sigma> [] = []"
| "fill \<sigma> (Lit a # ps) = a @ fill \<sigma> ps"
| "fill \<sigma> (Hole k # ps) = \<sigma> k @ fill \<sigma> ps"

definition at_free :: "string \<Rightarrow> bool" where
  "at_free s \<longleftrightarrow> CHR ''@'' \<notin> set s"

definition script_pieces :: "string \<Rightarrow> string \<Rightarrow> piece list" where
  "script_pieces project_placeholder split_line =
     [Lit (CHR 0x0A # ''CREATE OR REPLACE TABLE `''), Hole project_placeholder, Lit ''.'',
      Hole ''@DATASET'', Lit ''.'', Hole ''@TABLE'',
      Lit (''` '' @ CHR 0x0A # concat (map (\<lambda>l. l @ [CHR 0x0A]) taxitrips_lines)
           @ ''      AND EXTRACT(YEAR FROM trip_start_timestamp) = ''),
      Hole ''@YEAR'',
      Lit (CHR 0x0A # concat (map (\<lambda>l. l @ [CHR 0x0A]) (select_lines @ [split_line] @ from_lines))
           @ ''    LIMIT ''),
      Hole ''@LIMIT'',
      Lit (CHR 0x0A # '')'' @ [CHR 0x0A])]"

definition token :: "string \<Rightarrow> string \<Rightarrow> bool" where
  \<comment> \<open>a text that a scan for the placeholder \<open>k\<close> either replaces as a whole or steps over\<close>
  "token k x \<longleftrightarrow>
     x = k \<or> at_free x \<or>
     (x \<noteq> [] \<and> hd x = CHR ''@'' \<and> at_free (tl x) \<and> \<not> prefix k x \<and> \<not> prefix x k)"

definition replace_whole :: "string \<Rightarrow> string \<Rightarrow> string \<Rightarrow> string" where
  "replace_whole k v x = (if x = k then v else x)"

fun piece_ok :: "(string \<Rightarrow> bool) \<Rightarrow> piece \<Rightarrow> bool" where
  "piece_ok P (Lit a) = at_free a"
| "piece_ok P (Hole h) = P h"

definition placeholder :: "string \<Rightarrow> bool" where
  "placeholder k \<longleftrightarrow> k \<noteq> [] \<and> hd k = CHR ''@'' \<and> at_free (tl k)"

definition comparable :: "string \<Rightarrow> string \<Rightarrow> bool" where
  "comparable a b \<longleftrightarrow> prefix a b \<or> prefix b a"

definition binding :: "(string \<times> string) list \<Rightarrow> string \<Rightarrow> string" where
  "binding bs h = (case map_of bs h of Some v \<Rightarrow> v | None \<Rightarrow> h)"

section \<open>Experimentation: waiting for the custom training job\<close>

text \<open>
  \<^verbatim>\<open>while True:
      response = job_client_beta.get_custom_job(name=job.name)
      if response.state.name == 'JOB_STATE_SUCCEEDED':
          print('Training job completed. - Training Elapsed Time:', ...)
          print('Training Job Time:', ...)
          break
      elif response.state.name == 'JOB_STATE_FAILED':
          print('Training job failed!')
          break
      else:
          print(f'Training job state is: {response.state.name}.')
      time.sleep(60)\<close>

  The job service is the environment: \<open>get_custom_job i\<close> is what the \<open>i\<close>-th call
  gives, a response or an exception. What the cell does is a list of events, and the cell
  ends either normally or with the exception that reached it. The loop has no bound of
  its own, so it is a partial function: \<open>None\<close> is a run that never ends.
\<close>

datatype service_error = Service_error string

record response =
  state_name :: string
  create_time :: int
  update_time :: int
  start_time :: int
  end_time :: int

datatype event =
    Print_completed int
  | Print_job_time int
  | Print_failed
  | Print_state string
  | Sleep nat

datatype cell_result = Completed "event list" | Raised "event list" service_error

partial_function (option) monitor_loop ::
  "(nat \<Rightarrow> service_error + response) \<Rightarrow> nat \<Rightarrow> event list \<Rightarrow> cell_result option" where
  "monitor_loop get_custom_job i out =
     (case get_custom_job i of
        Inl e \<Rightarrow> Some (Raised out e)
      | Inr response \<Rightarrow>
          if state_name response = ''JOB_STATE_SUCCEEDED''
          then Some (Completed (out @ [Print_completed (update_time response - create_time response),
                                       Print_job_time (end_time response - start_time response)]))
          else if state_name response = ''JOB_STATE_FAILED''
          then Some (Completed (out @ [Print_failed]))
          else monitor_loop get_custom_job (Suc i)
                 (out @ [Print_state (state_name response), Sleep 60]))"

definition monitor_job_state :: "(nat \<Rightarrow> service_error + response) \<Rightarrow> cell_result option" where
  "monitor_job_state get_custom_job = monitor_loop get_custom_job 0 []"

definition terminal :: "response \<Rightarrow> bool" where
  "terminal r \<longleftrightarrow> state_name r = ''JOB_STATE_SUCCEEDED'' \<or> state_name r = ''JOB_STATE_FAILED''"

definition final_prints :: "response \<Rightarrow> event list" where
  "final_prints r =
     (if state_name r = ''JOB_STATE_SUCCEEDED''
      then [Print_completed (update_time r - create_time r), Print_job_time (end_time r - start_time r)]
      else [Print_failed])"

fun waiting :: "(nat \<Rightarrow> service_error + response) \<Rightarrow> nat \<Rightarrow> nat \<Rightarrow> event list" where
  \<comment> \<open>the events of \<open>n\<close> polls, from the \<open>i\<close>-th on, that saw a state which is not terminal\<close>
  "waiting get_custom_job i 0 = []"
| "waiting get_custom_job i (Suc n) =
     (case get_custom_job i of
        Inr r \<Rightarrow> [Print_state (state_name r), Sleep 60] @ waiting get_custom_job (Suc i) n
      | Inl e \<Rightarrow> [])"

definition still_running :: "(nat \<Rightarrow> service_error + response) \<Rightarrow> nat \<Rightarrow> bool" where
  "still_running get_custom_job i \<longleftrightarrow>
     (case get_custom_job i of Inr r \<Rightarrow> \<not> terminal r | Inl e \<Rightarrow> False)"

definition ends_with ::
  "(nat \<Rightarrow> service_error + response) \<Rightarrow> nat \<Rightarrow> event list \<Rightarrow> cell_result \<Rightarrow> bool" where
  \<comment> \<open>the loop entered at poll \<open>i\<close> with output \<open>out\<close> ends with \<open>res\<close>: after some
      \<open>n\<close> polls that saw a running job, poll \<open>i + n\<close> raised or saw a terminal state\<close>
  "ends_with g i out res \<longleftrightarrow>
     (\<exists>n. (\<forall>j<n. still_running g (i + j)) \<and>
       (case g (i + n) of
          Inl e \<Rightarrow> res = Raised (out @ waiting g i n) e
        | Inr r \<Rightarrow> terminal r \<and> res = Completed (out @ waiting g i n @ final_prints r)))"

section \<open>Model monitoring\<close>

text \<open>
  The monitoring notebook takes the last listed dataset and endpoint, turns its two
  threshold tables into threshold configurations, and builds one objective per model
  deployed on the endpoint from one template:

  \<^verbatim>\<open>deployment_objective_configs = []
  for model_id in model_ids:
      objective_config = copy.deepcopy(objective_template)
      objective_config.deployed_model_id = model_id
      deployment_objective_configs.append(objective_config)\<close>

  The job is sent to the job service, and read back from the service's listing by its
  display name. The service is not part of the notebooks: a listing is any list of jobs.
\<close>

datatype py_error = IndexError

record threshold_config =
  threshold_value :: real

record training_dataset =
  target_field :: string
  bigquery_source :: string

record objective_config =
  objective_training_dataset :: training_dataset
  skew_thresholds :: "string \<rightharpoonup> threshold_config"
  drift_thresholds :: "string \<rightharpoonup> threshold_config"

record deployment_objective_config =
  deployed_model_id :: string
  objective :: objective_config

record monitoring_job =
  display_name :: string
  endpoint :: string
  model_deployment_monitoring_objective_configs :: "deployment_objective_config list"
  sample_rate :: real
  monitor_interval :: int
  user_emails :: string

record endpoint_resource =
  endpoint_name :: string
  deployed_models :: "string list"

definition thresholds :: "(string \<rightharpoonup> real) \<Rightarrow> (string \<rightharpoonup> threshold_config)" where
  \<comment> \<open>\<^verbatim>\<open>{feature: ThresholdConfig(value=float(value)) for feature, value in T.items()}\<close>;
      the values are numbers already, \<open>float\<close> leaves them as they are\<close>
  "thresholds T = (\<lambda>feature. case T feature of
                      None \<Rightarrow> None
                    | Some v \<Rightarrow> Some \<lparr>threshold_value = v\<rparr>)"

definition objective_template ::
  "string \<Rightarrow> string \<Rightarrow> (string \<rightharpoonup> real) \<Rightarrow> (string \<rightharpoonup> real) \<Rightarrow> deployment_objective_config" where
  "objective_template target bq_source_uri SKEW_THRESHOLDS DIRFT_THRESHOLDS =
     \<lparr> deployed_model_id = [],
       objective = \<lparr> objective_training_dataset =
                       \<lparr>target_field = target, bigquery_source = bq_source_uri\<rparr>,
                     skew_thresholds = thresholds SKEW_THRESHOLDS,
                     drift_thresholds = thresholds DIRFT_THRESHOLDS \<rparr> \<rparr>"

fun objective_loop ::
  "deployment_objective_config \<Rightarrow> string list \<Rightarrow> deployment_objective_config list
     \<Rightarrow> deployment_objective_config list" where
  \<comment> \<open>\<^verbatim>\<open>for model_id in model_ids\<close>: copy the template, set the id, append\<close>
  "objective_loop template [] deployment_objective_configs = deployment_objective_configs"
| "objective_loop template (model_id # model_ids) deployment_objective_configs =
     objective_loop template model_ids
       (deployment_objective_configs @ [template\<lparr>deployed_model_id := model_id\<rparr>])"

record monitoring_settings =
  MONITORING_JOB_NAME :: string
  TARGET_FEATURE_NAME :: string
  LOG_SAMPLE_RATE :: real
  MONITOR_INTERVAL :: int
  NOTIFY_EMAILS :: string
  SKEW_THRESHOLDS :: "string \<rightharpoonup> real"
  DIRFT_THRESHOLDS :: "string \<rightharpoonup> real"

definition last_listed :: "'a list \<Rightarrow> py_error + 'a" where
  \<comment> \<open>\<^verbatim>\<open>X.list(...)[-1]\<close>\<close>
  "last_listed xs = (if xs = [] then Inl IndexError else Inr (last xs))"

definition build_job :: "monitoring_settings \<Rightarrow> string \<Rightarrow> endpoint_resource \<Rightarrow> monitoring_job" where
  "build_job c bq_source_uri ep =
     \<lparr> display_name = MONITORING_JOB_NAME c,
       endpoint = endpoint_name ep,
       model_deployment_monitoring_objective_configs =
         objective_loop
           (objective_template (TARGET_FEATURE_NAME c) bq_source_uri
              (SKEW_THRESHOLDS c) (DIRFT_THRESHOLDS c))
           (deployed_models ep) [],
       sample_rate = LOG_SAMPLE_RATE c,
       monitor_interval = MONITOR_INTERVAL c,
       user_emails = NOTIFY_EMAILS c \<rparr>"

definition configure_monitoring_job ::
  "monitoring_settings \<Rightarrow> string list \<Rightarrow> endpoint_resource list \<Rightarrow> py_error + monitoring_job" where
  \<comment> \<open>the cells from retrieving the dataset and the endpoint to instantiating the job;
      \<open>datasets\<close> are the BigQuery URIs of the listed datasets\<close>
  "configure_monitoring_job c datasets endpoints =
     (case last_listed datasets of
        Inl e \<Rightarrow> Inl e
      | Inr bq_source_uri \<Rightarrow>
          (case last_listed endpoints of
             Inl e \<Rightarrow> Inl e
           | Inr ep \<Rightarrow> Inr (build_job c bq_source_uri ep)))"

definition get_monitoring_job :: "string \<Rightarrow> monitoring_job list \<Rightarrow> py_error + monitoring_job" where
  \<comment> \<open>\<^verbatim>\<open>[entry for entry in monitoring_jobs if entry.display_name == MONITORING_JOB_NAME][0]\<close>\<close>
  "get_monitoring_job name monitoring_jobs =
     (case filter (\<lambda>entry. display_name entry = name) monitoring_jobs of
        [] \<Rightarrow> Inl IndexError
      | entry # _ \<Rightarrow> Inr entry)"

definition job_thresholds ::
  "monitoring_job \<Rightarrow> ((string \<rightharpoonup> real) \<times> (string \<rightharpoonup> real)) list" where
  \<comment> \<open>the threshold values a job carries, read back objective by objective\<close>
  "job_thresholds j =
     map (\<lambda>oc. (map_option threshold_value \<circ> skew_thresholds (objective oc),
                map_option threshold_value \<circ> drift_thresholds (objective oc)))
         (model_deployment_monitoring_objective_configs j)"

definition read_skew :: "monitoring_job \<Rightarrow> string \<Rightarrow> real option list" where
  \<comment> \<open>the skew threshold of one feature, read back from every objective of a job\<close>
  "read_skew j feature =
     map (\<lambda>oc. map_option threshold_value (skew_thresholds (objective oc) feature))
         (model_deployment_monitoring_objective_configs j)"

definition read_drift :: "monitoring_job \<Rightarrow> string \<Rightarrow> real option list" where
  "read_drift j feature =
     map (\<lambda>oc. map_option threshold_value (drift_thresholds (objective oc) feature))
         (model_deployment_monitoring_objective_configs j)"

section \<open>Notebook cells\<close>






section \<open>Sample inputs\<close>

definition sample_timestamp :: timestamp where
  "sample_timestamp = \<lparr>ts_year = 2020, ts_month = 3, ts_day = 14, ts_dayofweek = 7, ts_hour = 9\<rparr>"

definition sample_trip :: trip where
  "sample_trip =
     \<lparr> trip_start_timestamp = Some sample_timestamp,
       trip_seconds = Some 600,
       trip_miles = Some 2,
       payment_type = Some ''Credit Card'',
       pickup_longitude = Some (-87),
       pickup_latitude = Some 41,
       dropoff_longitude = Some (-88),
       dropoff_latitude = Some 42,
       tips = Some 3,
       fare = Some 10 \<rparr>"

definition free_ride :: trip where
  \<comment> \<open>a source row with a fare of zero\<close>
  "free_ride = sample_trip\<lparr>fare := Some 0\<rparr>"

definition sample_geography :: geography where
  "sample_geography = \<lparr>snap_text = (\<lambda>lon lat. ''POINT''), st_distance = (\<lambda>a b c d. 0)\<rparr>"

definition half :: "nat \<Rightarrow> real" where
  "half i = 1 / 2"

definition sample_warehouse :: warehouse where
  "sample_warehouse = [source_table \<mapsto> Trips [sample_trip, free_ride]]"

definition response_in_state :: "string \<Rightarrow> response" where
  "response_in_state s =
     \<lparr>state_name = s, create_time = 0, update_time = 200, start_time = 50, end_time = 150\<rparr>"


definition sample_job_service :: "nat \<Rightarrow> service_error + response" where
  \<comment> \<open>a training job seen running twice and then succeeded\<close>
  "sample_job_service i =
     (if i < 2 then Inr (response_in_state ''JOB_STATE_RUNNING'')
      else Inr (response_in_state ''JOB_STATE_SUCCEEDED''))"


definition sample_settings :: monitoring_settings where
  "sample_settings =
     \<lparr> MONITORING_JOB_NAME = ''monitor-chicago-taxi-tips-classifier'',
       TARGET_FEATURE_NAME = ''tip_bin'',
       LOG_SAMPLE_RATE = 8 / 10,
       MONITOR_INTERVAL = 3600,
       NOTIFY_EMAILS = ''[your-email-address]'',
       SKEW_THRESHOLDS = [''trip_month'' \<mapsto> 3 / 10, ''trip_miles'' \<mapsto> 3 / 10],
       DIRFT_THRESHOLDS = [''trip_month'' \<mapsto> 3 / 10, ''trip_miles'' \<mapsto> 3 / 10] \<rparr>"

definition earlier_settings :: monitoring_settings where
  \<comment> \<open>the same display name, other thresholds\<close>
  "earlier_settings =
     sample_settings\<lparr> SKEW_THRESHOLDS := [''trip_month'' \<mapsto> 5 / 10],
                       DIRFT_THRESHOLDS := [''trip_month'' \<mapsto> 5 / 10] \<rparr>"

definition sample_endpoint :: endpoint_resource where
  "sample_endpoint = \<lparr>endpoint_name = ''endpoints/1'', deployed_models = [''101'', ''102'']\<rparr>"

definition sample_job :: monitoring_job where
  "sample_job = build_job sample_settings ''bq://project.dataset.table'' sample_endpoint"

definition earlier_endpoint :: endpoint_resource where
  \<comment> \<open>another endpoint, with one deployed model\<close>
  "earlier_endpoint = \<lparr>endpoint_name = ''endpoints/0'', deployed_models = [''100'']\<rparr>"

definition earlier_job :: monitoring_job where
  "earlier_job = build_job earlier_settings ''bq://project.dataset.table'' earlier_endpoint"




section \<open>Properties of the data preparation\<close>

subsection \<open>The filter\<close>

lemma sql_and_True: "sql_and a b = Some True \<longleftrightarrow> a = Some True \<and> b = Some True"
  by (cases "(a, b)" rule: sql_and.cases) auto

lemma sql_gt_True: "sql_gt a (Some c) = Some True \<longleftrightarrow> (\<exists>x. a = Some x \<and> x > c)"
  by (auto simp: sql_gt_def split: option.splits)

lemma sql_eq_True: "sql_eq a (Some c) = Some True \<longleftrightarrow> a = Some c"
  by (auto simp: sql_eq_def split: option.splits)

lemma where_cond_True:
  "where_cond year t = Some True \<longleftrightarrow>
     valid_trip t \<and> sql_extract ts_year (trip_start_timestamp t) = Some year"
  unfolding where_cond_def valid_trip_def sql_and_True sql_gt_True sql_eq_True is_not_null_def
  by auto

lemma taxitrips_valid: "t \<in> set (taxitrips year src) \<Longrightarrow> t \<in> set src \<and> valid_trip t"
  by (simp add: taxitrips_def where_cond_True)

lemma taxitrips_filter_valid: "taxitrips year (filter valid_trip src) = taxitrips year src"
proof -
  have "(valid_trip t \<and> where_cond year t = Some True) = (where_cond year t = Some True)" for t
    by (auto simp: where_cond_True)
  then show ?thesis by (simp add: taxitrips_def)
qed

subsection \<open>The projection\<close>

lemma tip_bin_expr_valid:
  assumes "fare t = Some f" "f > 0"
  shows "tip_bin_expr t = Inr (if (\<exists>x. tips t = Some x \<and> x / f \<ge> 2 / 10) then 1 else 0)"
  using assms by (auto simp: tip_bin_expr_def sql_div_def sql_if_def sql_ge_def split: option.splits)

lemma select_rows_origin:
  "select_rows g split rand i ts = Inr ps \<Longrightarrow> p \<in> set ps \<Longrightarrow>
     \<exists>t \<in> set ts. \<exists>j. select_row g split t (rand j) = Inr p"
proof (induction ts arbitrary: i ps)
  case Nil
  then show ?case by simp
next
  case (Cons t ts)
  then show ?case
    by (fastforce split: sum.splits)
qed

lemma select_rows_total:
  "\<forall>t \<in> set ts. \<exists>b. tip_bin_expr t = Inr b \<Longrightarrow> \<exists>ps. select_rows g split rand i ts = Inr ps"
proof (induction ts arbitrary: i)
  case Nil
  then show ?case by simp
next
  case (Cons t ts)
  from Cons.prems obtain b where b: "tip_bin_expr t = Inr b" by auto
  from Cons.IH[of "Suc i"] Cons.prems obtain ps
    where ps: "select_rows g split rand (Suc i) ts = Inr ps" by auto
  from b ps show ?case by (simp add: select_row_def)
qed

lemma limit_subset: "limit n rows = Inr ps \<Longrightarrow> set ps \<subseteq> set rows"
  by (auto simp: limit_def split: if_splits dest: in_set_takeD)

lemma prepared_origin:
  assumes "prepare_query g split rand year n src = Inr ps" "p \<in> set ps"
  shows "\<exists>t \<in> set src. \<exists>j. valid_trip t \<and> select_row g split t (rand j) = Inr p"
proof -
  from assms(1) obtain qs where qs: "select_rows g split rand 0 (taxitrips year src) = Inr qs"
    and l: "limit n qs = Inr ps"
    by (auto simp: prepare_query_def split: sum.splits)
  from l assms(2) have "p \<in> set qs" using limit_subset by blast
  from select_rows_origin[OF qs this] show ?thesis using taxitrips_valid by blast
qed

lemma taxitrips_select_total:
  "\<exists>ps. select_rows g split rand i (taxitrips year src) = Inr ps"
proof (rule select_rows_total, rule ballI)
  fix t assume "t \<in> set (taxitrips year src)"
  then have "valid_trip t" using taxitrips_valid by blast
  then obtain f where "fare t = Some f" "0 < f" by (auto simp: valid_trip_def)
  from tip_bin_expr_valid[OF this] show "\<exists>b. tip_bin_expr t = Inr b" by blast
qed

lemma sample_query:
  "prepare_query sample_geography split half 2020 10 [sample_trip, free_ride] =
     Inr [\<lparr> prep_start_timestamp = Some sample_timestamp,
            trip_month = Some 3, trip_day = Some 14, trip_day_of_week = Some 7, trip_hour = Some 9,
            prep_seconds = Some 600, prep_miles = Some 2, prep_payment_type = Some ''Credit Card'',
            pickup_grid = Some ''POINT'', dropoff_grid = Some ''POINT'', euclidean = Some 0,
            loc_cross = Some ''POINTPOINT'', tip_bin = 1, split_column = split (1 / 2) \<rparr>]"
  by (simp add: prepare_query_def taxitrips_def where_cond_def sample_trip_def free_ride_def
      sample_timestamp_def sample_geography_def half_def is_not_null_def sql_gt_def sql_eq_def
      sql_extract_def select_row_def tip_bin_expr_def sql_div_def sql_if_def sql_ge_def
      grid_def distance_def concat_sql_def limit_def)

text \<open>
  C1. The split column of every prepared record is \<open>'UNASSIGNED'\<close> or \<open>'TEST'\<close>, and
  the draws \<open>r\<close> of \<open>[0, 1)\<close> that give \<open>'UNASSIGNED'\<close> should make up 0.8 of the
  interval, in both notebooks. In \<open>01-dataset-management\<close> they are the interval
  \<open>[0, 0.8]\<close>. In the unnamed notebook they are the interval \<open>(0.8, 1)\<close>, of length 0.2:
  the draw \<open>1/2\<close> is assigned \<open>'TEST'\<close> there, against the notebook's own text, which
  promises 80 percent of \<open>'UNASSIGNED'\<close>.
\<close>

theorem data_split_unassigned_region:
  "data_split (1 / 2) = ''TEST'' \<and> ML_use (1 / 2) = ''UNASSIGNED'' \<and>
   {r. 0 \<le> r \<and> r < 1 \<and> data_split r = ''UNASSIGNED''} = {r. 8 / 10 < r \<and> r < 1} \<and>
   {r. 0 \<le> r \<and> r < 1 \<and> ML_use r = ''UNASSIGNED''} = {r. 0 \<le> r \<and> r \<le> 8 / 10}"
  by (auto simp: data_split_def ML_use_def sql_if_def sql_gt_def sql_le_def)

text \<open>
  C2. For every prepared record, \<open>tip_bin\<close> is 1 exactly when \<open>tips / fare >= 0.2\<close> holds
  for the source row it was computed from, and 0 otherwise. The fare of that row is a
  positive number, so the quotient is the real quotient; a NULL tip makes the comparison
  NULL, which \<open>IF\<close> takes as not true.
\<close>

theorem tip_bin_label:
  assumes "prepare_query g split rand year n src = Inr ps" "p \<in> set ps"
  shows "\<exists>t \<in> set src. \<exists>j f. select_row g split t (rand j) = Inr p \<and> fare t = Some f \<and> 0 < f \<and>
           (tip_bin p = 1 \<longleftrightarrow> (\<exists>x. tips t = Some x \<and> x / f \<ge> 2 / 10)) \<and>
           (tip_bin p = 0 \<longleftrightarrow> \<not> (\<exists>x. tips t = Some x \<and> x / f \<ge> 2 / 10))"
proof -
  from prepared_origin[OF assms] obtain t j where t: "t \<in> set src"
    and w: "valid_trip t" and s: "select_row g split t (rand j) = Inr p"
    by blast
  from w obtain f where f: "fare t = Some f" "0 < f"
    by (auto simp: valid_trip_def)
  from s tip_bin_expr_valid[OF f]
  have "tip_bin p = (if (\<exists>x. tips t = Some x \<and> x / f \<ge> 2 / 10) then 1 else 0)"
    by (auto simp: select_row_def split: sum.splits)
  with t s f show ?thesis by (intro bexI[of _ t] exI[of _ j] exI[of _ f]) auto
qed

theorem tip_bin_label_witness:
  "\<exists>p. prepare_query sample_geography data_split half 2020 10 [sample_trip, free_ride] = Inr [p] \<and>
       tip_bin p = 1 \<and> tips sample_trip = Some 3 \<and> fare sample_trip = Some 10 \<and>
       (3::real) / 10 \<ge> 2 / 10"
proof -
  let ?p = "\<lparr> prep_start_timestamp = Some sample_timestamp,
            trip_month = Some 3, trip_day = Some 14, trip_day_of_week = Some 7, trip_hour = Some 9,
            prep_seconds = Some 600, prep_miles = Some 2, prep_payment_type = Some ''Credit Card'',
            pickup_grid = Some ''POINT'', dropoff_grid = Some ''POINT'', euclidean = Some 0,
            loc_cross = Some ''POINTPOINT'', tip_bin = 1, split_column = data_split (1 / 2) \<rparr>"
  have q: "prepare_query sample_geography data_split half 2020 10 [sample_trip, free_ride] = Inr [?p]"
    by (rule sample_query)
  have "?p \<in> set [?p]" by simp
  from tip_bin_label[OF q this] have "tip_bin ?p = 1 \<or> tip_bin ?p = 0" by blast
  with q show ?thesis by (simp add: sample_trip_def)
qed

text \<open>
  C3. Every prepared record is computed from a source row with positive distance,
  duration and fare and with pickup and dropoff coordinates that are not NULL, and it
  carries that row's distance and duration. No other row reaches the projection: the
  query gives the same result, errors included, on the source table with the other rows
  taken out.
\<close>

theorem prepared_records_valid:
  "prepare_query g split rand year n (filter valid_trip src) = prepare_query g split rand year n src \<and>
   (\<forall>t \<in> set (taxitrips year src). valid_trip t) \<and>
   (prepare_query g split rand year n src = Inr ps \<longrightarrow>
      (\<forall>p \<in> set ps. \<exists>t \<in> set src. \<exists>j m s.
          valid_trip t \<and> select_row g split t (rand j) = Inr p \<and>
          prep_miles p = Some m \<and> 0 < m \<and> prep_seconds p = Some s \<and> 0 < s))"
proof (intro conjI impI ballI)
  show "prepare_query g split rand year n (filter valid_trip src) = prepare_query g split rand year n src"
    by (simp add: prepare_query_def taxitrips_filter_valid)
next
  fix t assume "t \<in> set (taxitrips year src)"
  then show "valid_trip t" using taxitrips_valid by blast
next
  fix p assume q: "prepare_query g split rand year n src = Inr ps" and p: "p \<in> set ps"
  from prepared_origin[OF q p] obtain t j where t: "t \<in> set src" "valid_trip t"
    and s: "select_row g split t (rand j) = Inr p" by blast
  from t(2) obtain m sec where m: "trip_miles t = Some m" "0 < m"
    and sec: "trip_seconds t = Some sec" "0 < sec"
    by (auto simp: valid_trip_def)
  from s have "prep_miles p = trip_miles t" "prep_seconds p = trip_seconds t"
    by (auto simp: select_row_def split: sum.splits)
  with t s m sec
  show "\<exists>t \<in> set src. \<exists>j m s. valid_trip t \<and> select_row g split t (rand j) = Inr p \<and>
          prep_miles p = Some m \<and> 0 < m \<and> prep_seconds p = Some s \<and> 0 < s"
    by (intro bexI[of _ t] exI[of _ j] exI[of _ m] exI[of _ sec]) simp_all
qed

theorem prepared_records_valid_witness:
  "\<exists>p. prepare_query sample_geography data_split half 2020 10 [sample_trip, free_ride] = Inr [p] \<and>
       valid_trip sample_trip \<and> \<not> valid_trip free_ride \<and>
       taxitrips 2020 [sample_trip, free_ride] = [sample_trip] \<and>
       prep_miles p = Some 2 \<and> prep_seconds p = Some 600"
proof -
  let ?src = "[sample_trip, free_ride]"
  have v: "valid_trip sample_trip" "\<not> valid_trip free_ride"
    by (simp_all add: valid_trip_def sample_trip_def free_ride_def)
  have tt: "taxitrips 2020 ?src = [sample_trip]"
    by (simp add: taxitrips_def where_cond_True v)
       (simp add: sample_trip_def sample_timestamp_def sql_extract_def)
  obtain p where q: "prepare_query sample_geography data_split half 2020 10 ?src = Inr [p]"
    using sample_query by blast
  from prepared_records_valid[of sample_geography data_split half 2020 10 ?src "[p]"] q
  obtain t j m s where "t \<in> set ?src" "valid_trip t"
    "select_row sample_geography data_split t (half j) = Inr p"
    "prep_miles p = Some m" "prep_seconds p = Some s"
    by auto
  with v have "prep_miles p = Some 2" "prep_seconds p = Some 600"
    by (auto simp: select_row_def sample_trip_def split: sum.splits)
  with q v tt show ?thesis by blast
qed

text \<open>
  C10. The quotient \<open>tips / fare\<close> of the label never divides by zero: every row of
  \<open>taxitrips\<close> has a positive fare, so the projection succeeds on each of them and the
  query never ends with a division error.
\<close>

theorem tip_ratio_division_safe:
  "prepare_query g split rand year n src \<noteq> Inl Division_by_zero \<and>
   (\<forall>t \<in> set (taxitrips year src).
      (\<exists>f. fare t = Some f \<and> 0 < f) \<and> sql_div (tips t) (fare t) \<noteq> Inl Division_by_zero \<and>
      (\<exists>b. tip_bin_expr t = Inr b))"
proof (intro conjI ballI)
  obtain qs where "select_rows g split rand 0 (taxitrips year src) = Inr qs"
    using taxitrips_select_total by blast
  then show "prepare_query g split rand year n src \<noteq> Inl Division_by_zero"
    by (simp add: prepare_query_def limit_def)
next
  fix t assume "t \<in> set (taxitrips year src)"
  then have "valid_trip t" using taxitrips_valid by blast
  then obtain f where f: "fare t = Some f" "0 < f" by (auto simp: valid_trip_def)
  then show "\<exists>f. fare t = Some f \<and> 0 < f" by blast
  from f show "sql_div (tips t) (fare t) \<noteq> Inl Division_by_zero"
    by (simp add: sql_div_def split: option.splits)
  from tip_bin_expr_valid[OF f] show "\<exists>b. tip_bin_expr t = Inr b" by blast
qed

theorem tip_ratio_division_safe_witness:
  "sample_trip \<in> set (taxitrips 2020 [sample_trip, free_ride]) \<and>
   free_ride \<notin> set (taxitrips 2020 [sample_trip, free_ride]) \<and>
   fare sample_trip = Some 10 \<and>
   sql_div (tips sample_trip) (fare sample_trip) \<noteq> Inl Division_by_zero \<and>
   sql_div (tips free_ride) (fare free_ride) = Inl Division_by_zero \<and>
   prepare_query sample_geography ML_use half 2020 10 [sample_trip, free_ride] \<noteq> Inl Division_by_zero"
proof -
  let ?src = "[sample_trip, free_ride]"
  have v: "valid_trip sample_trip" "\<not> valid_trip free_ride"
    by (simp_all add: valid_trip_def sample_trip_def free_ride_def)
  have tt: "taxitrips 2020 ?src = [sample_trip]"
    by (simp add: taxitrips_def where_cond_True v)
       (simp add: sample_trip_def sample_timestamp_def sql_extract_def)
  have ne: "free_ride \<noteq> sample_trip" using v by auto
  have z: "sql_div (tips free_ride) (fare free_ride) = Inl Division_by_zero"
    by (simp add: sql_div_def free_ride_def sample_trip_def)
  from tip_ratio_division_safe[of sample_geography ML_use half 2020 10 ?src] tt ne z
  show ?thesis by (simp add: sample_trip_def)
qed

text \<open>
  C8. A data-preparation run overwrites the destination table: after a run that
  succeeds, the destination holds exactly the rows this run's query produced from the
  source table, every other table is as before, and whatever the destination held
  before the run has no influence on what it holds after.
\<close>

theorem run_overwrites_destination:
  "(run_sql_script g split rand dest year n w = Inr w' \<longrightarrow>
      (\<exists>src ps. w source_table = Some (Trips src) \<and>
                prepare_query g split rand year n src = Inr ps \<and>
                w' dest = Some (Prepared ps) \<and>
                (\<forall>name. name \<noteq> dest \<longrightarrow> w' name = w name))) \<and>
   (dest \<noteq> source_table \<longrightarrow>
      map_sum id (\<lambda>w'. w' dest) (run_sql_script g split rand dest year n (w(dest \<mapsto> old))) =
      map_sum id (\<lambda>w'. w' dest) (run_sql_script g split rand dest year n w))"
proof (intro conjI impI)
  assume "run_sql_script g split rand dest year n w = Inr w'"
  then show "\<exists>src ps. w source_table = Some (Trips src) \<and>
                prepare_query g split rand year n src = Inr ps \<and>
                w' dest = Some (Prepared ps) \<and>
                (\<forall>name. name \<noteq> dest \<longrightarrow> w' name = w name)"
    by (auto simp: run_sql_script_def split: option.splits table.splits sum.splits)
next
  assume "dest \<noteq> source_table"
  then show "map_sum id (\<lambda>w'. w' dest) (run_sql_script g split rand dest year n (w(dest \<mapsto> old))) =
      map_sum id (\<lambda>w'. w' dest) (run_sql_script g split rand dest year n w)"
    by (auto simp: run_sql_script_def split: option.splits table.splits sum.splits)
qed

theorem run_overwrites_destination_witness:
  "\<exists>p q. ''p.d.t'' \<noteq> source_table \<and>
     run_sql_script sample_geography ML_use half ''p.d.t'' 2020 10
       (sample_warehouse(''p.d.t'' \<mapsto> Prepared [q, q, q])) =
       Inr (sample_warehouse(''p.d.t'' \<mapsto> Prepared [p])) \<and>
     prepare_query sample_geography ML_use half 2020 10 [sample_trip, free_ride] = Inr [p] \<and>
     tip_bin q = 0 \<and> tip_bin p = 1"
proof -
  obtain p where p: "prepare_query sample_geography ML_use half 2020 10 [sample_trip, free_ride] = Inr [p]"
    and b: "tip_bin p = 1"
    using sample_query[of ML_use] by simp
  define q where "q = p\<lparr>tip_bin := 0\<rparr>"
  let ?w = "sample_warehouse(''p.d.t'' \<mapsto> Prepared [q, q, q])"
  have ne: "''p.d.t'' \<noteq> source_table" by (simp add: source_table_def)
  have src: "sample_warehouse source_table = Some (Trips [sample_trip, free_ride])"
    by (simp add: sample_warehouse_def)
  have run: "run_sql_script sample_geography ML_use half ''p.d.t'' 2020 10 ?w =
      Inr (sample_warehouse(''p.d.t'' \<mapsto> Prepared [p]))"
    using ne by (simp add: run_sql_script_def src p)
  from run_overwrites_destination[of sample_geography ML_use half "''p.d.t''" 2020 10 ?w
      "sample_warehouse(''p.d.t'' \<mapsto> Prepared [p])" "Prepared [q, q, q]"] run ne
  have "(sample_warehouse(''p.d.t'' \<mapsto> Prepared [p])) ''p.d.t'' = Some (Prepared [p])"
    by simp
  with ne run p b show ?thesis by (intro exI[of _ p] exI[of _ q]) (simp add: q_def)
qed

section \<open>Properties of the placeholder substitution\<close>

lemma replace_scan_at_free:
  assumes "old \<noteq> []" "hd old = CHR ''@''" "at_free a"
  shows "replace_scan old new (a @ s) = a @ replace_scan old new s"
  using assms(3)
proof (induction a)
  case Nil
  then show ?case by simp
next
  case (Cons c a)
  from Cons.prems have c: "c \<noteq> CHR ''@''" and a: "at_free a" by (auto simp: at_free_def)
  from assms(1,2) c have "\<not> prefix old (c # a @ s)"
    by (cases old) auto
  with Cons.IH[OF a] show ?case by simp
qed

lemma replace_scan_hit:
  assumes "old \<noteq> []"
  shows "replace_scan old new (old @ s) = new @ replace_scan old new s"
proof -
  from assms obtain c cs where old: "old = c # cs" by (cases old) auto
  have "replace_scan old new (c # cs @ s) = new @ replace_scan old new (drop (length old) (c # cs @ s))"
    using assms by (simp add: old)
  then show ?thesis by (simp add: old)
qed

lemma replace_scan_token:
  assumes "placeholder k" "token k x"
  shows "replace_scan k v (x @ s) = replace_whole k v x @ replace_scan k v s"
proof -
  from assms(1) have k: "k \<noteq> []" "hd k = CHR ''@''" by (auto simp: placeholder_def)
  consider (same) "x = k" | (free) "x \<noteq> k" "at_free x"
    | (other) "x \<noteq> k" "x \<noteq> []" "hd x = CHR ''@''" "at_free (tl x)" "\<not> prefix k x" "\<not> prefix x k"
    using assms(2) unfolding token_def by blast
  then show ?thesis
  proof cases
    case same
    then show ?thesis using replace_scan_hit[OF k(1)] by (simp add: replace_whole_def)
  next
    case free
    then show ?thesis using replace_scan_at_free[OF k] by (simp add: replace_whole_def)
  next
    case other
    then obtain x0 where x: "x = CHR ''@'' # x0" and x0: "at_free x0" by (cases x) auto
    have "\<not> prefix k (x @ s)"
    proof
      assume "prefix k (x @ s)"
      then have "prefix k x \<or> prefix x k"
        by (auto simp: prefix_append)
      with other show False by blast
    qed
    then have "replace_scan k v (x @ s) = CHR ''@'' # replace_scan k v (x0 @ s)"
      by (simp add: x)
    also have "\<dots> = x @ replace_scan k v s"
      using replace_scan_at_free[OF k x0] by (simp add: x)
    finally show ?thesis using other(1) by (simp add: replace_whole_def)
  qed
qed

lemma replace_fill:
  assumes "placeholder k" "list_all (piece_ok (\<lambda>h. token k (\<sigma> h))) ps"
  shows "replace k v (fill \<sigma> ps) = fill (\<lambda>h. replace_whole k v (\<sigma> h)) ps"
proof -
  from assms(1) have k: "k \<noteq> []" "hd k = CHR ''@''" by (auto simp: placeholder_def)
  have "replace_scan k v (fill \<sigma> ps) = fill (\<lambda>h. replace_whole k v (\<sigma> h)) ps"
    using assms(2)
  proof (induction ps)
    case Nil
    then show ?case by simp
  next
    case (Cons p ps)
    show ?case
    proof (cases p)
      case (Lit a)
      with Cons show ?thesis using replace_scan_at_free[OF k] by simp
    next
      case (Hole h)
      with Cons show ?thesis using replace_scan_token[OF assms(1)] by simp
    qed
  qed
  with k show ?thesis by (simp add: replace_def)
qed

lemma find_key:
  assumes "\<forall>k \<in> fst ` set bs. Q k \<longleftrightarrow> k = h"
  shows "find (\<lambda>(k, v). Q k) bs = (case map_of bs h of Some v \<Rightarrow> Some (h, v) | None \<Rightarrow> None)"
  using assms by (induction bs) (auto split: option.splits)

lemma spec_substitute_at_free:
  assumes "list_all (\<lambda>(k, v). placeholder k) bs" "at_free a"
  shows "spec_substitute bs (a @ s) = a @ spec_substitute bs s"
  using assms(2)
proof (induction a)
  case Nil
  then show ?case by simp
next
  case (Cons c a)
  from Cons.prems have c: "c \<noteq> CHR ''@''" and a: "at_free a" by (auto simp: at_free_def)
  have "find (\<lambda>(k, v). k \<noteq> [] \<and> prefix k (c # a @ s)) bs = None"
  proof -
    have "\<not> (k \<noteq> [] \<and> prefix k (c # a @ s))" if "(k, v) \<in> set bs" for k v
    proof -
      from that assms(1) have "placeholder k" by (auto simp: list_all_iff)
      with c show ?thesis by (cases k) (auto simp: placeholder_def)
    qed
    then show ?thesis by (auto simp: find_None_iff)
  qed
  with Cons.IH[OF a] show ?case by simp
qed

lemma spec_substitute_hole:
  assumes ph: "list_all (\<lambda>(k, v). placeholder k) bs"
    and inc: "\<forall>k \<in> fst ` set bs. comparable k h \<longrightarrow> k = h"
    and h: "h \<in> fst ` set bs"
  shows "spec_substitute bs (h @ s) = binding bs h @ spec_substitute bs s"
proof -
  from h ph have hp: "placeholder h" by (auto simp: list_all_iff)
  then obtain c cs where hc: "h = c # cs" by (cases h) (auto simp: placeholder_def)
  from h obtain v where v: "map_of bs h = Some v"
    by (metis domD dom_map_of_conv_image_fst)
  have "\<forall>k \<in> fst ` set bs. (k \<noteq> [] \<and> prefix k (h @ s)) \<longleftrightarrow> k = h"
  proof (intro ballI iffI)
    fix k assume kw: "k \<in> fst ` set bs" and "k \<noteq> [] \<and> prefix k (h @ s)"
    then have "prefix k h \<or> prefix h k" by (auto simp: prefix_append)
    then have "comparable k h" by (simp add: comparable_def)
    with inc kw show "k = h" by blast
  next
    fix k assume "k \<in> fst ` set bs" "k = h"
    with hc show "k \<noteq> [] \<and> prefix k (h @ s)" by simp
  qed
  from find_key[of bs "\<lambda>k. k \<noteq> [] \<and> prefix k (h @ s)" h, OF this] v
  have "find (\<lambda>(k, v). k \<noteq> [] \<and> prefix k (h @ s)) bs = Some (h, v)" by simp
  then have "spec_substitute bs (c # cs @ s) = v @ spec_substitute bs (drop (length h) (c # cs @ s))"
    by (simp add: hc)
  with v show ?thesis by (simp add: hc binding_def)
qed

lemma spec_substitute_fill:
  assumes ph: "list_all (\<lambda>(k, v). placeholder k) bs"
    and ok: "list_all (piece_ok (\<lambda>h. h \<in> fst ` set bs \<and> (\<forall>k \<in> fst ` set bs. comparable k h \<longrightarrow> k = h))) ps"
  shows "spec_substitute bs (fill (\<lambda>k. k) ps) = fill (binding bs) ps"
  using ok
proof (induction ps)
  case Nil
  then show ?case by simp
next
  case (Cons p ps)
  show ?case
  proof (cases p)
    case (Lit a)
    with Cons show ?thesis using spec_substitute_at_free[OF ph] by simp
  next
    case (Hole h)
    with Cons show ?thesis using spec_substitute_hole[OF ph] by simp
  qed
qed


lemma at_free_append: "at_free (a @ b) \<longleftrightarrow> at_free a \<and> at_free b"
  by (auto simp: at_free_def)

lemma at_free_Cons: "at_free (c # a) \<longleftrightarrow> c \<noteq> CHR ''@'' \<and> at_free a"
  by (auto simp: at_free_def)

lemma at_free_Nil: "at_free []"
  by (simp add: at_free_def)

lemma at_free_digit: "d < 10 \<Longrightarrow> at_free [digit_char d]"
proof -
  assume d: "d < 10"
  have "digit_char d \<noteq> CHR ''@''"
  proof
    assume "digit_char d = CHR ''@''"
    then have "of_char (char_of (48 + d)) = (of_char (CHR ''@'') :: nat)"
      by (simp add: digit_char_def)
    with d show False by simp
  qed
  then show ?thesis by (simp add: at_free_Cons at_free_Nil)
qed

lemma at_free_str_nat: "at_free (str_nat n)"
proof (induction n rule: str_nat.induct)
  case (1 n)
  show ?case
  proof (cases "n < 10")
    case True
    then show ?thesis by (subst str_nat.simps) (simp add: at_free_digit)
  next
    case False
    with 1 have "at_free (str_nat (n div 10))" by simp
    moreover have "at_free [digit_char (n mod 10)]" by (rule at_free_digit) simp
    ultimately show ?thesis using False by (subst str_nat.simps) (simp add: at_free_append)
  qed
qed

lemma at_free_str: "at_free (str i)"
  using at_free_str_nat by (simp add: str_def at_free_Cons)

lemma at_free_taxitrips_lines: "at_free (concat (map (\<lambda>l. l @ [CHR 0x0A]) taxitrips_lines))"
  by (simp add: at_free_def taxitrips_lines_def)

lemma at_free_select_lines: "at_free (concat (map (\<lambda>l. l @ [CHR 0x0A]) select_lines))"
  by (simp add: at_free_def select_lines_def)

lemma at_free_from_lines: "at_free (concat (map (\<lambda>l. l @ [CHR 0x0A]) from_lines))"
  by (simp add: at_free_def from_lines_def)

lemma script_pieces_ok:
  assumes "at_free split_line" "P project_placeholder" "P ''@DATASET''" "P ''@TABLE''" "P ''@YEAR''" "P ''@LIMIT''"
  shows "list_all (piece_ok P) (script_pieces project_placeholder split_line)"
  using assms at_free_taxitrips_lines at_free_select_lines at_free_from_lines
  by (simp add: script_pieces_def at_free_append at_free_Cons at_free_Nil)


lemma fill_cong:
  "list_all (piece_ok (\<lambda>h. \<sigma> h = \<tau> h)) ps \<Longrightarrow> fill \<sigma> ps = fill \<tau> ps"
proof (induction ps)
  case Nil
  then show ?case by simp
next
  case (Cons p ps)
  then show ?case by (cases p) simp_all
qed

lemma replace_whole_at_free:
  "placeholder k \<Longrightarrow> at_free x \<Longrightarrow> replace_whole k v x = x"
  by (cases k) (auto simp: replace_whole_def placeholder_def at_free_def)

lemma token_at_free: "at_free x \<Longrightarrow> token k x"
  by (simp add: token_def)

lemma token_same: "token k k"
  by (simp add: token_def)

lemma token_other:
  "placeholder x \<Longrightarrow> \<not> comparable k x \<Longrightarrow> token k x"
  by (simp add: token_def placeholder_def comparable_def)

lemma placeholders:
  "placeholder ''@PROJECT''" "placeholder ''@PROJECT_ID''" "placeholder ''@DATASET''"
  "placeholder ''@TABLE''" "placeholder ''@YEAR''" "placeholder ''@LIMIT''"
  by (simp_all add: placeholder_def at_free_def)

lemma replace_chain:
  assumes P: "placeholder P"
    and inc: "\<not> comparable P ''@DATASET''" "\<not> comparable P ''@TABLE''"
             "\<not> comparable P ''@YEAR''" "\<not> comparable P ''@LIMIT''"
    and vals: "at_free p" "at_free d" "at_free t" "at_free y" "at_free l"
    and line: "at_free split_line"
  shows "replace ''@LIMIT'' l (replace ''@YEAR'' y (replace ''@TABLE'' t (replace ''@DATASET'' d
           (replace P p (fill (\<lambda>k. k) (script_pieces P split_line))))))
         = fill (binding [(P, p), (''@DATASET'', d), (''@TABLE'', t), (''@YEAR'', y), (''@LIMIT'', l)])
             (script_pieces P split_line)"
proof -
  let ?ps = "script_pieces P split_line"
  let ?D = "''@DATASET''" and ?T = "''@TABLE''" and ?Y = "''@YEAR''" and ?L = "''@LIMIT''"
  have ne: "P \<noteq> ?D" "P \<noteq> ?T" "P \<noteq> ?Y" "P \<noteq> ?L"
    using inc by (auto simp: comparable_def)
  have sym: "\<not> comparable ?D P" "\<not> comparable ?T P" "\<not> comparable ?Y P" "\<not> comparable ?L P"
    using inc by (auto simp: comparable_def)
  have others: "\<not> comparable ?D ?T" "\<not> comparable ?D ?Y" "\<not> comparable ?D ?L"
      "\<not> comparable ?T ?D" "\<not> comparable ?T ?Y" "\<not> comparable ?T ?L"
      "\<not> comparable ?Y ?D" "\<not> comparable ?Y ?T" "\<not> comparable ?Y ?L"
      "\<not> comparable ?L ?D" "\<not> comparable ?L ?T" "\<not> comparable ?L ?Y"
    by (simp_all add: comparable_def)
  note ph = placeholders(3-6)
  define s1 where "s1 = (\<lambda>h. replace_whole P p h)"
  define s2 where "s2 = (\<lambda>h. replace_whole ?D d (s1 h))"
  define s3 where "s3 = (\<lambda>h. replace_whole ?T t (s2 h))"
  define s4 where "s4 = (\<lambda>h. replace_whole ?Y y (s3 h))"
  define s5 where "s5 = (\<lambda>h. replace_whole ?L l (s4 h))"
  have v1: "s1 P = p" "s1 ?D = ?D" "s1 ?T = ?T" "s1 ?Y = ?Y" "s1 ?L = ?L"
    using ne by (auto simp: s1_def replace_whole_def)
  have v2: "s2 P = p" "s2 ?D = d" "s2 ?T = ?T" "s2 ?Y = ?Y" "s2 ?L = ?L"
    using vals(1) ph(1) by (simp_all add: s2_def v1 replace_whole_at_free) (simp_all add: replace_whole_def)
  have v3: "s3 P = p" "s3 ?D = d" "s3 ?T = t" "s3 ?Y = ?Y" "s3 ?L = ?L"
    using vals(1,2) ph(2) by (simp_all add: s3_def v2 replace_whole_at_free) (simp_all add: replace_whole_def)
  have v4: "s4 P = p" "s4 ?D = d" "s4 ?T = t" "s4 ?Y = y" "s4 ?L = ?L"
    using vals(1-3) ph(3) by (simp_all add: s4_def v3 replace_whole_at_free) (simp_all add: replace_whole_def)
  have v5: "s5 P = p" "s5 ?D = d" "s5 ?T = t" "s5 ?Y = y" "s5 ?L = l"
    using vals(1-4) ph(4) by (simp_all add: s5_def v4 replace_whole_at_free) (simp_all add: replace_whole_def)
  have "replace P p (fill (\<lambda>k. k) ?ps) = fill s1 ?ps"
    unfolding s1_def
    by (rule replace_fill[OF P], rule script_pieces_ok[OF line])
       (simp_all add: token_same token_other ph inc)
  moreover have "replace ?D d (fill s1 ?ps) = fill s2 ?ps"
    unfolding s2_def
    by (rule replace_fill[OF ph(1)], rule script_pieces_ok[OF line])
       (simp_all add: v1 token_same token_other token_at_free ph P vals sym others)
  moreover have "replace ?T t (fill s2 ?ps) = fill s3 ?ps"
    unfolding s3_def
    by (rule replace_fill[OF ph(2)], rule script_pieces_ok[OF line])
       (simp_all add: v2 token_same token_other token_at_free ph P vals sym others)
  moreover have "replace ?Y y (fill s3 ?ps) = fill s4 ?ps"
    unfolding s4_def
    by (rule replace_fill[OF ph(3)], rule script_pieces_ok[OF line])
       (simp_all add: v3 token_same token_other token_at_free ph P vals sym others)
  moreover have "replace ?L l (fill s4 ?ps) = fill s5 ?ps"
    unfolding s5_def
    by (rule replace_fill[OF ph(4)], rule script_pieces_ok[OF line])
       (simp_all add: v4 token_same token_other token_at_free ph P vals sym others)
  moreover have "fill s5 ?ps =
      fill (binding [(P, p), (?D, d), (?T, t), (?Y, y), (?L, l)]) ?ps"
    by (rule fill_cong, rule script_pieces_ok[OF line])
       (use ne in \<open>simp_all add: v5 binding_def\<close>)
  ultimately show ?thesis by simp
qed

lemma spec_chain:
  assumes P: "placeholder P"
    and inc: "\<not> comparable P ''@DATASET''" "\<not> comparable P ''@TABLE''"
             "\<not> comparable P ''@YEAR''" "\<not> comparable P ''@LIMIT''"
    and line: "at_free split_line"
  shows "spec_substitute [(P, p), (''@DATASET'', d), (''@TABLE'', t), (''@YEAR'', y), (''@LIMIT'', l)]
           (fill (\<lambda>k. k) (script_pieces P split_line))
         = fill (binding [(P, p), (''@DATASET'', d), (''@TABLE'', t), (''@YEAR'', y), (''@LIMIT'', l)])
             (script_pieces P split_line)"
proof -
  have sym: "\<not> comparable ''@DATASET'' P" "\<not> comparable ''@TABLE'' P"
      "\<not> comparable ''@YEAR'' P" "\<not> comparable ''@LIMIT'' P"
    using inc by (auto simp: comparable_def)
  show ?thesis
    by (rule spec_substitute_fill, simp add: P placeholders, rule script_pieces_ok[OF line])
       (use inc sym in \<open>simp_all add: comparable_def\<close>)
qed


lemma script_data_split_pieces:
  "sql_script_data_split = fill (\<lambda>k. k) (script_pieces ''@PROJECT''
     ''      IF(RAND() > 0.8, 'UNASSIGNED', 'TEST') AS data_split'')"
  by (simp add: sql_script_data_split_def script_pieces_def triple_quoted_def year_line_def limit_line_def)

lemma script_ML_use_pieces:
  "sql_script_ML_use = fill (\<lambda>k. k) (script_pieces ''@PROJECT_ID''
     ''      IF(RAND() <= 0.8, 'UNASSIGNED', 'TEST') AS ML_use'')"
  by (simp add: sql_script_ML_use_def script_pieces_def triple_quoted_def year_line_def limit_line_def)

lemma project_placeholders:
  "\<not> comparable ''@PROJECT'' ''@DATASET''" "\<not> comparable ''@PROJECT'' ''@TABLE''"
  "\<not> comparable ''@PROJECT'' ''@YEAR''" "\<not> comparable ''@PROJECT'' ''@LIMIT''"
  "\<not> comparable ''@PROJECT_ID'' ''@DATASET''" "\<not> comparable ''@PROJECT_ID'' ''@TABLE''"
  "\<not> comparable ''@PROJECT_ID'' ''@YEAR''" "\<not> comparable ''@PROJECT_ID'' ''@LIMIT''"
  by (simp_all add: comparable_def)

lemma split_lines_at_free:
  "at_free ''      IF(RAND() > 0.8, 'UNASSIGNED', 'TEST') AS data_split''"
  "at_free ''      IF(RAND() <= 0.8, 'UNASSIGNED', 'TEST') AS ML_use''"
  by (simp_all add: at_free_def)

text \<open>
  C5. The claim: for any project, dataset, table, year and limit, the script the
  notebooks produce is the template with every placeholder occurrence replaced by its
  value and every other character unchanged. The notebooks chain five \<open>replace\<close>
  calls, and each call scans the whole text again, the values already inserted
  included. The two agree when the project, dataset and table values contain no
  \<open>@\<close> (the year and the limit are written as decimal numbers and never do): then
  the replace chain is the one-pass substitution, in both notebooks.
\<close>

theorem replace_chain_is_substitution:
  assumes "at_free project" "at_free dataset" "at_free tbl"
  shows "substitute_data_split project dataset tbl year sample_size =
           spec_substitute (bindings ''@PROJECT'' project dataset tbl year sample_size)
             sql_script_data_split
       \<and> substitute_ML_use project dataset tbl year sample_size =
           spec_substitute (bindings ''@PROJECT_ID'' project dataset tbl year sample_size)
             sql_script_ML_use"
proof
  show "substitute_data_split project dataset tbl year sample_size =
           spec_substitute (bindings ''@PROJECT'' project dataset tbl year sample_size)
             sql_script_data_split"
    unfolding substitute_data_split_def bindings_def script_data_split_pieces
    using replace_chain[OF placeholders(1) project_placeholders(1-4) assms at_free_str at_free_str
            split_lines_at_free(1)]
          spec_chain[OF placeholders(1) project_placeholders(1-4) split_lines_at_free(1)]
    by simp
  show "substitute_ML_use project dataset tbl year sample_size =
           spec_substitute (bindings ''@PROJECT_ID'' project dataset tbl year sample_size)
             sql_script_ML_use"
    unfolding substitute_ML_use_def bindings_def script_ML_use_pieces
    using replace_chain[OF placeholders(2) project_placeholders(5-8) assms at_free_str at_free_str
            split_lines_at_free(2)]
          spec_chain[OF placeholders(2) project_placeholders(5-8) split_lines_at_free(2)]
    by simp
qed


theorem replace_chain_is_substitution_witness:
  "at_free ''my-project'' \<and> at_free ''playground_us'' \<and> at_free ''chicago_taxitrips_prep'' \<and>
   substitute_data_split ''my-project'' ''playground_us'' ''chicago_taxitrips_prep'' 2020 1000000 =
     spec_substitute (bindings ''@PROJECT'' ''my-project'' ''playground_us'' ''chicago_taxitrips_prep'' 2020 1000000)
       sql_script_data_split \<and>
   substitute_ML_use ''my-project'' ''playground_us'' ''chicago_taxitrips_prep'' 2020 1000000 =
     spec_substitute (bindings ''@PROJECT_ID'' ''my-project'' ''playground_us'' ''chicago_taxitrips_prep'' 2020 1000000)
       sql_script_ML_use"
proof -
  have h: "at_free ''my-project''" "at_free ''playground_us''" "at_free ''chicago_taxitrips_prep''"
    by (simp_all add: at_free_def)
  from replace_chain_is_substitution[OF h, of 2020 1000000] h show ?thesis by blast
qed

text \<open>
  The claim as stated fails where a value holds a placeholder: with the project
  \<open>@TABLE\<close>, the chain replaces the inserted project by the table value, and the
  produced script differs from the template with its placeholders replaced by the given
  values.
\<close>

theorem replace_chain_rescans_values:
  "substitute_data_split ''@TABLE'' ''d'' ''t'' 2020 1000000 \<noteq>
     spec_substitute (bindings ''@PROJECT'' ''@TABLE'' ''d'' ''t'' 2020 1000000) sql_script_data_split"
proof -
  let ?line = "''      IF(RAND() > 0.8, 'UNASSIGNED', 'TEST') AS data_split''"
  let ?ps = "script_pieces ''@PROJECT'' ?line"
  let ?P = "''@PROJECT''" and ?D = "''@DATASET''" and ?T = "''@TABLE''" and ?Y = "''@YEAR''"
    and ?L = "''@LIMIT''"
  let ?y = "str 2020" and ?l = "str 1000000"
  note line = split_lines_at_free(1)
  note ph = placeholders(1,3-6)
  have inc: "\<not> comparable ?P ?D" "\<not> comparable ?P ?T" "\<not> comparable ?P ?Y" "\<not> comparable ?P ?L"
      "\<not> comparable ?D ?P" "\<not> comparable ?T ?P" "\<not> comparable ?Y ?P" "\<not> comparable ?L ?P"
      "\<not> comparable ?D ?T" "\<not> comparable ?D ?Y" "\<not> comparable ?D ?L"
      "\<not> comparable ?T ?D" "\<not> comparable ?T ?Y" "\<not> comparable ?T ?L"
      "\<not> comparable ?Y ?D" "\<not> comparable ?Y ?T" "\<not> comparable ?Y ?L"
      "\<not> comparable ?L ?D" "\<not> comparable ?L ?T" "\<not> comparable ?L ?Y"
    by (simp_all add: comparable_def)
  have vals: "at_free ''d''" "at_free ''t''" "at_free ?y" "at_free ?l"
    by (simp_all add: at_free_str) (simp_all add: at_free_def)
  define s1 where "s1 = (\<lambda>h. replace_whole ?P ?T h)"
  define s2 where "s2 = (\<lambda>h. replace_whole ?D ''d'' (s1 h))"
  define s3 where "s3 = (\<lambda>h. replace_whole ?T ''t'' (s2 h))"
  define s4 where "s4 = (\<lambda>h. replace_whole ?Y ?y (s3 h))"
  define s5 where "s5 = (\<lambda>h. replace_whole ?L ?l (s4 h))"
  have v1: "s1 ?P = ?T" "s1 ?D = ?D" "s1 ?T = ?T" "s1 ?Y = ?Y" "s1 ?L = ?L"
    by (simp_all add: s1_def replace_whole_def)
  have v2: "s2 ?P = ?T" "s2 ?D = ''d''" "s2 ?T = ?T" "s2 ?Y = ?Y" "s2 ?L = ?L"
    by (simp_all add: s2_def v1) (simp_all add: replace_whole_def)
  have v3: "s3 ?P = ''t''" "s3 ?D = ''d''" "s3 ?T = ''t''" "s3 ?Y = ?Y" "s3 ?L = ?L"
    by (simp_all add: s3_def v2) (simp_all add: replace_whole_def)
  have v4: "s4 ?P = ''t''" "s4 ?D = ''d''" "s4 ?T = ''t''" "s4 ?Y = ?y" "s4 ?L = ?L"
    using vals(3) ph(4) by (simp_all add: s4_def v3 replace_whole_at_free) (simp_all add: replace_whole_def)
  have v5: "s5 ?P = ''t''"
    using vals(3) ph(5) by (simp add: s5_def v4 replace_whole_at_free) (simp add: replace_whole_def)
  have "replace ?P ?T (fill (\<lambda>k. k) ?ps) = fill s1 ?ps"
    unfolding s1_def
    by (rule replace_fill[OF ph(1)], rule script_pieces_ok[OF line])
       (simp_all add: token_same token_other ph inc)
  moreover have "replace ?D ''d'' (fill s1 ?ps) = fill s2 ?ps"
    unfolding s2_def
    by (rule replace_fill[OF ph(2)], rule script_pieces_ok[OF line])
       (simp_all add: v1 token_same token_other token_at_free ph vals inc)
  moreover have "replace ?T ''t'' (fill s2 ?ps) = fill s3 ?ps"
    unfolding s3_def
    by (rule replace_fill[OF ph(3)], rule script_pieces_ok[OF line])
       (simp_all add: v2 token_same token_other token_at_free ph vals inc)
  moreover have "replace ?Y ?y (fill s3 ?ps) = fill s4 ?ps"
    unfolding s4_def
    by (rule replace_fill[OF ph(4)], rule script_pieces_ok[OF line])
       (simp_all add: v3 token_same token_other token_at_free ph vals inc)
  moreover have "replace ?L ?l (fill s4 ?ps) = fill s5 ?ps"
    unfolding s5_def
    by (rule replace_fill[OF ph(5)], rule script_pieces_ok[OF line])
       (simp_all add: v4 token_same token_other token_at_free ph vals inc)
  ultimately have lhs: "substitute_data_split ''@TABLE'' ''d'' ''t'' 2020 1000000 = fill s5 ?ps"
    by (simp add: substitute_data_split_def script_data_split_pieces)
  have rhs: "spec_substitute (bindings ''@PROJECT'' ''@TABLE'' ''d'' ''t'' 2020 1000000) sql_script_data_split
      = fill (binding [(?P, ?T), (?D, ''d''), (?T, ''t''), (?Y, ?y), (?L, ?l)]) ?ps"
    unfolding bindings_def script_data_split_pieces
    by (rule spec_chain[OF ph(1) inc(1-4) line])
  have "fill s5 ?ps \<noteq> fill (binding [(?P, ?T), (?D, ''d''), (?T, ''t''), (?Y, ?y), (?L, ?l)]) ?ps"
    by (simp add: script_pieces_def v5 binding_def)
  with lhs rhs show ?thesis by simp
qed

section \<open>Properties of the polling loop and of the cells\<close>

lemma loop_iteration:
  "get_custom_job i = Inr r \<Longrightarrow>
   monitor_loop get_custom_job i out =
     (if terminal r then Some (Completed (out @ final_prints r))
      else monitor_loop get_custom_job (Suc i) (out @ [Print_state (state_name r), Sleep 60]))"
  by (subst monitor_loop.simps) (simp add: terminal_def final_prints_def)

lemma loop_raises:
  "get_custom_job i = Inl e \<Longrightarrow> monitor_loop get_custom_job i out = Some (Raised out e)"
  by (subst monitor_loop.simps) simp

lemma loop_waits:
  "(\<forall>j<n. still_running get_custom_job (i + j)) \<Longrightarrow>
   monitor_loop get_custom_job i out =
     monitor_loop get_custom_job (i + n) (out @ waiting get_custom_job i n)"
proof (induction n arbitrary: i out)
  case 0
  then show ?case by simp
next
  case (Suc n)
  from Suc.prems have "still_running get_custom_job (i + 0)" by blast
  then obtain r where r: "get_custom_job i = Inr r" "\<not> terminal r"
    by (auto simp: still_running_def split: sum.splits)
  have "\<forall>j<n. still_running get_custom_job (Suc i + j)"
  proof (intro allI impI)
    fix j assume "j < n"
    then have "Suc j < Suc n" by simp
    with Suc.prems have "still_running get_custom_job (i + Suc j)" by blast
    then show "still_running get_custom_job (Suc i + j)" by simp
  qed
  from Suc.IH[OF this] r show ?case
    by (simp add: loop_iteration)
qed

lemma loop_ends:
  assumes "\<forall>j<n. still_running get_custom_job j"
  shows "monitor_job_state get_custom_job =
          (case get_custom_job n of
             Inl e \<Rightarrow> Some (Raised (waiting get_custom_job 0 n) e)
           | Inr r \<Rightarrow> if terminal r then Some (Completed (waiting get_custom_job 0 n @ final_prints r))
                      else monitor_loop get_custom_job (Suc n)
                             (waiting get_custom_job 0 n @ [Print_state (state_name r), Sleep 60]))"
proof -
  from assms have "\<forall>j<n. still_running get_custom_job (0 + j)" by simp
  from loop_waits[OF this, of "[]"] show ?thesis
    by (simp add: monitor_job_state_def loop_raises loop_iteration split: sum.splits)
qed

lemma ends_with_now:
  "g i = Inl e \<Longrightarrow> ends_with g i out (Raised out e)"
  "g i = Inr r \<Longrightarrow> terminal r \<Longrightarrow> ends_with g i out (Completed (out @ final_prints r))"
  unfolding ends_with_def by (rule exI[of _ 0], simp)+

lemma ends_with_later:
  assumes "g i = Inr r" "\<not> terminal r"
    and "ends_with g (Suc i) (out @ [Print_state (state_name r), Sleep 60]) res"
  shows "ends_with g i out res"
proof -
  from assms(3) obtain n where n: "\<forall>j<n. still_running g (Suc i + j)"
    and c: "(case g (Suc i + n) of
          Inl e \<Rightarrow> res = Raised ((out @ [Print_state (state_name r), Sleep 60]) @ waiting g (Suc i) n) e
        | Inr r' \<Rightarrow> terminal r' \<and> res = Completed ((out @ [Print_state (state_name r), Sleep 60]) @ waiting g (Suc i) n @ final_prints r'))"
    unfolding ends_with_def by blast
  have "\<forall>j<Suc n. still_running g (i + j)"
  proof (intro allI impI)
    fix j assume j: "j < Suc n"
    show "still_running g (i + j)"
    proof (cases j)
      case 0
      with assms(1,2) show ?thesis by (simp add: still_running_def)
    next
      case (Suc j')
      with j n have "still_running g (Suc i + j')" by simp
      with Suc show ?thesis by simp
    qed
  qed
  moreover from c assms(1) have "(case g (i + Suc n) of
          Inl e \<Rightarrow> res = Raised (out @ waiting g i (Suc n)) e
        | Inr r' \<Rightarrow> terminal r' \<and> res = Completed (out @ waiting g i (Suc n) @ final_prints r'))"
    by (simp split: sum.splits)
  ultimately show ?thesis unfolding ends_with_def by blast
qed

lemma loop_body_eq:
  "(case g i of
      Inl e \<Rightarrow> Some (Raised out e)
    | Inr response \<Rightarrow>
        if state_name response = ''JOB_STATE_SUCCEEDED''
        then Some (Completed (out @ [Print_completed (update_time response - create_time response),
                                     Print_job_time (end_time response - start_time response)]))
        else if state_name response = ''JOB_STATE_FAILED''
        then Some (Completed (out @ [Print_failed]))
        else loop g (Suc i) (out @ [Print_state (state_name response), Sleep 60]))
   = (case g i of
        Inl e \<Rightarrow> Some (Raised out e)
      | Inr r \<Rightarrow> if terminal r then Some (Completed (out @ final_prints r))
                 else loop g (Suc i) (out @ [Print_state (state_name r), Sleep 60]))"
  by (cases "g i") (simp_all add: terminal_def final_prints_def)

lemma loop_result:
  assumes "monitor_loop g i out = Some res"
  shows "ends_with g i out res"
proof (rule monitor_loop.raw_induct[where P = ends_with, OF _ assms], goal_cases)
  case (1 loop g i out res)
  note body = 1(2)[unfolded loop_body_eq]
  show ?case
  proof (cases "g i")
    case (Inl e)
    with body have "res = Raised out e" by simp
    with Inl show ?thesis by (simp add: ends_with_now)
  next
    case (Inr r)
    show ?thesis
    proof (cases "terminal r")
      case True
      with body Inr have "res = Completed (out @ final_prints r)" by simp
      with Inr True show ?thesis by (simp add: ends_with_now)
    next
      case False
      with body Inr have "loop g (Suc i) (out @ [Print_state (state_name r), Sleep 60]) = Some res"
        by simp
      from 1(1)[OF this] Inr False show ?thesis by (rule ends_with_later[rotated 2])
    qed
  qed
qed

lemma sample_service_running: "\<forall>j<2. still_running sample_job_service j"
  by (simp add: still_running_def sample_job_service_def terminal_def response_in_state_def)


text \<open>
  C7. In every iteration that is given a state, the loop ends in that iteration exactly
  when the state is \<open>JOB_STATE_SUCCEEDED\<close> or \<open>JOB_STATE_FAILED\<close>; on any other state
  it prints the state, sleeps 60 seconds and polls again. So the cell ends normally
  exactly when some poll sees a terminal state after polls that all saw other states,
  and its output then is one state line and one sleep of 60 seconds for each of those
  polls, followed by the final lines.
\<close>

theorem polling_loop_exits_on_terminal_state:
  "(get_custom_job i = Inr r \<longrightarrow>
      monitor_loop get_custom_job i out =
        (if terminal r then Some (Completed (out @ final_prints r))
         else monitor_loop get_custom_job (Suc i) (out @ [Print_state (state_name r), Sleep 60]))) \<and>
   (monitor_job_state get_custom_job = Some (Completed out') \<longleftrightarrow>
      (\<exists>n r'. (\<forall>j<n. still_running get_custom_job j) \<and> get_custom_job n = Inr r' \<and> terminal r' \<and>
              out' = waiting get_custom_job 0 n @ final_prints r'))"
proof (intro conjI impI iffI)
  assume "get_custom_job i = Inr r"
  then show "monitor_loop get_custom_job i out =
        (if terminal r then Some (Completed (out @ final_prints r))
         else monitor_loop get_custom_job (Suc i) (out @ [Print_state (state_name r), Sleep 60]))"
    by (rule loop_iteration)
next
  assume "monitor_job_state get_custom_job = Some (Completed out')"
  then have "ends_with get_custom_job 0 [] (Completed out')"
    unfolding monitor_job_state_def by (rule loop_result)
  then obtain n where n: "\<forall>j<n. still_running get_custom_job (0 + j)"
    and c: "(case get_custom_job (0 + n) of
          Inl e \<Rightarrow> Completed out' = Raised ([] @ waiting get_custom_job 0 n) e
        | Inr r \<Rightarrow> terminal r \<and> Completed out' = Completed ([] @ waiting get_custom_job 0 n @ final_prints r))"
    unfolding ends_with_def by blast
  from c obtain r' where "get_custom_job n = Inr r'" "terminal r'"
    "out' = waiting get_custom_job 0 n @ final_prints r'"
    by (cases "get_custom_job n") auto
  with n show "\<exists>n r'. (\<forall>j<n. still_running get_custom_job j) \<and> get_custom_job n = Inr r' \<and>
      terminal r' \<and> out' = waiting get_custom_job 0 n @ final_prints r'"
    by auto
next
  assume "\<exists>n r'. (\<forall>j<n. still_running get_custom_job j) \<and> get_custom_job n = Inr r' \<and> terminal r' \<and>
              out' = waiting get_custom_job 0 n @ final_prints r'"
  then obtain n r' where n: "\<forall>j<n. still_running get_custom_job j"
    and r': "get_custom_job n = Inr r'" "terminal r'"
    and out': "out' = waiting get_custom_job 0 n @ final_prints r'"
    by blast
  from loop_ends[OF n] r' out' show "monitor_job_state get_custom_job = Some (Completed out')"
    by simp
qed

theorem polling_loop_exits_on_terminal_state_witness:
  "sample_job_service 0 = Inr (response_in_state ''JOB_STATE_RUNNING'') \<and>
   \<not> terminal (response_in_state ''JOB_STATE_RUNNING'') \<and>
   sample_job_service 2 = Inr (response_in_state ''JOB_STATE_SUCCEEDED'') \<and>
   terminal (response_in_state ''JOB_STATE_SUCCEEDED'') \<and>
   monitor_loop sample_job_service 0 [] =
     monitor_loop sample_job_service 1 [Print_state ''JOB_STATE_RUNNING'', Sleep 60] \<and>
   monitor_job_state sample_job_service =
     Some (Completed [Print_state ''JOB_STATE_RUNNING'', Sleep 60,
                      Print_state ''JOB_STATE_RUNNING'', Sleep 60,
                      Print_completed 200, Print_job_time 100])"
proof -
  let ?run = "response_in_state ''JOB_STATE_RUNNING''"
  let ?ok = "response_in_state ''JOB_STATE_SUCCEEDED''"
  let ?out = "[Print_state ''JOB_STATE_RUNNING'', Sleep 60,
               Print_state ''JOB_STATE_RUNNING'', Sleep 60,
               Print_completed 200, Print_job_time 100]"
  have s0: "sample_job_service 0 = Inr ?run" and s2: "sample_job_service 2 = Inr ?ok"
    by (simp_all add: sample_job_service_def)
  have t: "\<not> terminal ?run" "terminal ?ok"
    by (simp_all add: terminal_def response_in_state_def)
  have w: "waiting sample_job_service 0 2 @ final_prints ?ok = ?out"
    by (simp add: numeral_2_eq_2 sample_job_service_def final_prints_def response_in_state_def)
  note iter = polling_loop_exits_on_terminal_state
  from iter[of sample_job_service 0 ?run "[]"] s0 t(1)
  have step: "monitor_loop sample_job_service 0 [] =
     monitor_loop sample_job_service 1 [Print_state ''JOB_STATE_RUNNING'', Sleep 60]"
    by (simp add: response_in_state_def)
  have "\<exists>n r'. (\<forall>j<n. still_running sample_job_service j) \<and> sample_job_service n = Inr r' \<and>
      terminal r' \<and> ?out = waiting sample_job_service 0 n @ final_prints r'"
    using sample_service_running s2 t(2) w by (intro exI[of _ 2] exI[of _ ?ok]) simp
  with iter[of sample_job_service 0 ?run "[]" ?out]
  have "monitor_job_state sample_job_service = Some (Completed ?out)" by blast
  with s0 s2 t step show ?thesis by simp
qed





section \<open>Properties of the monitoring job\<close>

lemma objective_loop_map:
  "objective_loop template model_ids acc =
     acc @ map (\<lambda>model_id. template\<lparr>deployed_model_id := model_id\<rparr>) model_ids"
  by (induction model_ids arbitrary: acc) simp_all

lemma build_job_objectives:
  "model_deployment_monitoring_objective_configs (build_job c uri ep) =
     map (\<lambda>model_id. (objective_template (TARGET_FEATURE_NAME c) uri
                          (SKEW_THRESHOLDS c) (DIRFT_THRESHOLDS c))\<lparr>deployed_model_id := model_id\<rparr>)
         (deployed_models ep)"
  by (simp add: build_job_def objective_loop_map)

lemma thresholds_value: "map_option threshold_value (thresholds T feature) = T feature"
  by (simp add: thresholds_def split: option.splits)

lemma read_skew_build_job:
  "read_skew (build_job c uri ep) feature =
     replicate (length (deployed_models ep)) (SKEW_THRESHOLDS c feature)"
  by (simp add: read_skew_def build_job_objectives objective_template_def thresholds_value
      map_replicate_const comp_def)

lemma read_drift_build_job:
  "read_drift (build_job c uri ep) feature =
     replicate (length (deployed_models ep)) (DIRFT_THRESHOLDS c feature)"
  by (simp add: read_drift_def build_job_objectives objective_template_def thresholds_value
      map_replicate_const comp_def)

lemma configure_monitoring_job_Inr:
  assumes "configure_monitoring_job c datasets endpoints = Inr job"
  shows "datasets \<noteq> [] \<and> endpoints \<noteq> [] \<and> job = build_job c (last datasets) (last endpoints)"
  using assms
  by (auto simp: configure_monitoring_job_def last_listed_def split: if_splits)

lemma get_monitoring_job_first:
  assumes "\<forall>e \<in> set earlier. display_name e \<noteq> name" "display_name job = name"
  shows "get_monitoring_job name (earlier @ job # later) = Inr job"
proof -
  from assms(1) have "filter (\<lambda>entry. display_name entry = name) earlier = []"
    by (simp add: filter_empty_conv)
  with assms(2) show ?thesis by (simp add: get_monitoring_job_def)
qed

lemma sample_configured:
  "configure_monitoring_job sample_settings [''bq://project.dataset.table''] [sample_endpoint] =
     Inr sample_job"
  by (simp add: configure_monitoring_job_def last_listed_def sample_job_def)




text \<open>
  C6. The claim: create a monitoring job, list the jobs, take the one with the same
  display name, and the thresholds read back are the ones given. The notebook takes the
  first listed job with that display name. When the created job is the first such job
  in the listing, that is the created job, and each of its objectives carries, for every
  feature, the skew and drift threshold given for it.
\<close>

theorem monitoring_thresholds_round_trip:
  assumes "configure_monitoring_job c datasets endpoints = Inr job"
    and "\<forall>e \<in> set earlier. display_name e \<noteq> MONITORING_JOB_NAME c"
  shows "get_monitoring_job (MONITORING_JOB_NAME c) (earlier @ job # later) = Inr job \<and>
         read_skew job feature =
           replicate (length (deployed_models (last endpoints))) (SKEW_THRESHOLDS c feature) \<and>
         read_drift job feature =
           replicate (length (deployed_models (last endpoints))) (DIRFT_THRESHOLDS c feature)"
proof -
  from configure_monitoring_job_Inr[OF assms(1)]
  have job: "job = build_job c (last datasets) (last endpoints)" by simp
  then have "display_name job = MONITORING_JOB_NAME c" by (simp add: build_job_def)
  from get_monitoring_job_first[OF assms(2) this] show ?thesis
    by (simp add: job read_skew_build_job read_drift_build_job)
qed

theorem monitoring_thresholds_round_trip_witness:
  "configure_monitoring_job sample_settings [''bq://project.dataset.table''] [sample_endpoint] =
     Inr sample_job \<and>
   get_monitoring_job (MONITORING_JOB_NAME sample_settings) [sample_job, earlier_job] = Inr sample_job \<and>
   SKEW_THRESHOLDS sample_settings ''trip_month'' = Some (3 / 10) \<and>
   read_skew sample_job ''trip_month'' = [Some (3 / 10), Some (3 / 10)] \<and>
   read_drift sample_job ''trip_month'' = [Some (3 / 10), Some (3 / 10)]"
proof -
  have "\<forall>e \<in> set []. display_name e \<noteq> MONITORING_JOB_NAME sample_settings" by simp
  from monitoring_thresholds_round_trip[OF sample_configured this, of "[earlier_job]" "''trip_month''"]
    sample_configured
  show ?thesis by (simp add: sample_settings_def sample_endpoint_def)
qed

text \<open>
  The claim as stated fails when a job with the same display name is listed before the
  created one: the notebook then reads back that job's thresholds, not the ones given.
\<close>

theorem earlier_job_with_same_name_is_selected:
  "configure_monitoring_job sample_settings [''bq://project.dataset.table''] [sample_endpoint] =
     Inr sample_job \<and>
   get_monitoring_job (MONITORING_JOB_NAME sample_settings) [earlier_job, sample_job] = Inr earlier_job \<and>
   SKEW_THRESHOLDS sample_settings ''trip_month'' = Some (3 / 10) \<and>
   read_skew earlier_job ''trip_month'' = [Some (5 / 10)]"
proof -
  have "display_name earlier_job = MONITORING_JOB_NAME sample_settings"
    by (simp add: earlier_job_def build_job_def earlier_settings_def)
  then have "get_monitoring_job (MONITORING_JOB_NAME sample_settings) [earlier_job, sample_job] =
      Inr earlier_job"
    by (simp add: get_monitoring_job_def)
  moreover have "read_skew earlier_job ''trip_month'' = [Some (5 / 10)]"
    by (simp add: earlier_job_def read_skew_build_job earlier_settings_def earlier_endpoint_def)
  ultimately show ?thesis using sample_configured by (simp add: sample_settings_def)
qed

end
